theory Spec2Isabelle
  imports Main "HOL-Library.Word"
begin

unbundle bit_operations_syntax

section \<open>Common types\<close>

type_synonym byte = "8 word"
type_synonym bytes = "byte list"

text \<open>\<open>model.PacketID\<close> is a \<open>uint32\<close>; \<open>model.SessionID\<close> is \<open>[8]byte\<close>.\<close>

type_synonym PacketID = "32 word"
type_synonym SessionID = bytes

text \<open>A Go \<open>panic\<close>, with its message.\<close>

datatype panic = Panic string

section \<open>The session manager (internal/session/manager.go)\<close>

text \<open>
  The negotiation state is a Go \<open>int\<close>: \<open>S_ERROR = iota - 1\<close>, then \<open>S_UNDEF\<close>,
  \<open>S_INITIAL\<close>, ... in the order of the constant block.
\<close>

type_synonym NegotiationState = int

definition S_ERROR :: NegotiationState where "S_ERROR = -1"
definition S_UNDEF :: NegotiationState where "S_UNDEF = 0"
definition S_INITIAL :: NegotiationState where "S_INITIAL = 1"
definition S_PRE_START :: NegotiationState where "S_PRE_START = 2"
definition S_START :: NegotiationState where "S_START = 3"
definition S_SENT_KEY :: NegotiationState where "S_SENT_KEY = 4"
definition S_GOT_KEY :: NegotiationState where "S_GOT_KEY = 5"
definition S_ACTIVE :: NegotiationState where "S_ACTIVE = 6"
definition S_GENERATED_KEYS :: NegotiationState where "S_GENERATED_KEYS = 7"

lemmas neg_state_defs =
  S_ERROR_def S_UNDEF_def S_INITIAL_def S_PRE_START_def S_START_def
  S_SENT_KEY_def S_GOT_KEY_def S_ACTIVE_def S_GENERATED_KEYS_def

datatype error =
    ErrExpiredKey
  | ErrNoRemoteSessionID
  | ErrDataChannelKey
  | ErrExternal string

text \<open>
  Modelled from the spec: the declarations of \<open>KeySource\<close>, \<open>DataChannelKey\<close>,
  \<open>model.TunnelInfo\<close>, \<open>model.Opcode\<close> and \<open>model.Packet\<close> are not among the sources.
  A key source is the pre-master equivalent with the two random seeds; of a data channel
  key only the field \<open>local\<close>, which \<open>NewManager\<close> assigns, is kept; the tunnel info and
  the packet have the fields that manager.go reads and writes.
\<close>

record KeySource =
  R1 :: bytes
  R2 :: bytes
  PreMaster :: bytes

record DataChannelKey =
  local :: "KeySource option"

record TunnelInfo =
  GW :: string
  IP :: string
  MTU :: int
  NetMask :: string
  PeerID :: int

datatype Opcode =
    P_CONTROL_HARD_RESET_CLIENT_V2
  | P_CONTROL_HARD_RESET_SERVER_V2
  | P_CONTROL_V1
  | P_ACK_V1
  | P_DATA_V1
  | P_DATA_V2

record Packet =
  Opcode :: Opcode
  KeyID :: byte
  PeerID3 :: bytes
  LocalSessionID :: SessionID
  ACKs :: "PacketID list"
  RemoteSessionID :: SessionID
  ID :: PacketID
  Payload :: bytes

text \<open>
  The \<open>Manager\<close> struct. The mutex and the logger are left out; the tracer is the list
  of states passed to \<open>OnStateChange\<close>, and the channel \<open>Ready\<close> is the list of the
  values sent on it, oldest first.
\<close>

record Manager =
  keyID :: byte
  keys :: "DataChannelKey list"
  localControlPacketID :: PacketID
  localDataPacketID :: PacketID
  localSessionID :: SessionID
  negState :: NegotiationState
  remoteSessionID :: "SessionID option"
  tunnelInfo :: TunnelInfo
  tracer :: "NegotiationState list"
  Ready :: "bool list"

definition zeroSessionID :: SessionID where
  "zeroSessionID = replicate 8 0"

definition zeroTunnelInfo :: TunnelInfo where
  "zeroTunnelInfo = \<lparr>GW = [], IP = [], MTU = 0, NetMask = [], PeerID = 0\<rparr>"

text \<open>\<open>Manager.ActiveKey\<close>: the key at \<open>keyID\<close>, or an error when there is none.\<close>

definition ActiveKey :: "Manager \<Rightarrow> error + DataChannelKey" where
  "ActiveKey m =
     (if length (keys m) > 255 \<or> unat (keyID m) \<ge> length (keys m) mod 256
      then Inl ErrDataChannelKey
      else Inr (keys m ! unat (keyID m)))"

text \<open>
  \<open>NewManager\<close>. The two sources of randomness are arguments: \<open>rnd\<close> is what
  \<open>randomFn(8)\<close> returns and \<open>ks\<close> what \<open>NewKeySource()\<close> returns. The manager is
  returned also with an error, as in the source. Slicing and converting \<open>randomBytes[:8]\<close>
  panics when there are fewer than eight bytes.
\<close>

definition initialManager :: Manager where
  "initialManager =
     \<lparr>keyID = 0,
      keys = [\<lparr>local = None\<rparr>],
      localControlPacketID = 1,
      localDataPacketID = 1,
      localSessionID = zeroSessionID,
      negState = 0,
      remoteSessionID = None,
      tunnelInfo = zeroTunnelInfo,
      tracer = [],
      Ready = []\<rparr>"

definition NewManager ::
  "(error + bytes) \<Rightarrow> (error + KeySource) \<Rightarrow> panic + (Manager \<times> error option)" where
  "NewManager rnd ks =
     (let sessionManager = initialManager in
      case rnd of
        Inl err \<Rightarrow> Inr (sessionManager, Some err)
      | Inr randomBytes \<Rightarrow>
          if length randomBytes < 8 then Inl (Panic ''slice bounds out of range'')
          else
            let sessionManager = sessionManager\<lparr>localSessionID := take 8 randomBytes\<rparr> in
            (case ks of
               Inl err \<Rightarrow> Inr (sessionManager, Some err)
             | Inr localKey \<Rightarrow>
                 (case ActiveKey sessionManager of
                    Inl err \<Rightarrow> Inr (sessionManager, Some err)
                  | Inr k \<Rightarrow>
                      Inr (sessionManager
                             \<lparr>keys := (keys sessionManager)
                                [unat (keyID sessionManager) := k\<lparr>local := Some localKey\<rparr>]\<rparr>,
                           None))))"

text \<open>
  \<open>localDataPacketIDLocked\<close> and \<open>localControlPacketIDLocked\<close>: the counter is returned
  and then incremented, unless it is \<open>math.MaxUint32\<close>. With the error the source returns
  the packet id 0, which the sum leaves out.
\<close>

definition MaxUint32 :: PacketID where
  "MaxUint32 = 0xFFFFFFFF"

definition localDataPacketIDLocked :: "Manager \<Rightarrow> (error + PacketID) \<times> Manager" where
  "localDataPacketIDLocked m =
     (let pid = localDataPacketID m in
      if pid = MaxUint32 then (Inl ErrExpiredKey, m)
      else (Inr pid, m\<lparr>localDataPacketID := localDataPacketID m + 1\<rparr>))"

definition localControlPacketIDLocked :: "Manager \<Rightarrow> (error + PacketID) \<times> Manager" where
  "localControlPacketIDLocked m =
     (let pid = localControlPacketID m in
      if pid = MaxUint32 then (Inl ErrExpiredKey, m)
      else (Inr pid, m\<lparr>localControlPacketID := localControlPacketID m + 1\<rparr>))"

definition LocalDataPacketID :: "Manager \<Rightarrow> (error + PacketID) \<times> Manager" where
  "LocalDataPacketID m = localDataPacketIDLocked m"

text \<open>
  Go's \<open>copy(dst, src)\<close> on two slices: the first \<open>min (len dst) (len src)\<close> elements of
  \<open>dst\<close> are overwritten.
\<close>

definition copy_slice :: "'a list \<Rightarrow> 'a list \<Rightarrow> 'a list" where
  "copy_slice dst src = take (length dst) src @ drop (length src) dst"

text \<open>
  Modelled from the spec: \<open>model.NewPacket\<close> is not among the sources. It builds a packet
  with the given opcode, key id and payload; the other fields have their zero values.
\<close>

definition model_NewPacket :: "Opcode \<Rightarrow> byte \<Rightarrow> bytes \<Rightarrow> Packet" where
  "model_NewPacket opcode kid payload =
     \<lparr>Opcode = opcode, KeyID = kid, PeerID3 = replicate 3 0,
      LocalSessionID = zeroSessionID, ACKs = [], RemoteSessionID = zeroSessionID,
      ID = 0, Payload = payload\<rparr>"

text \<open>
  \<open>Manager.NewPacket\<close>. The method \<open>Opcode.IsControl\<close> is not among the sources: it is
  the argument \<open>isControl\<close>.
\<close>

definition NewPacket ::
  "(Opcode \<Rightarrow> bool) \<Rightarrow> Manager \<Rightarrow> Opcode \<Rightarrow> bytes \<Rightarrow> (error + Packet) \<times> Manager" where
  "NewPacket isControl m opcode payload =
     (let packet = model_NewPacket opcode (keyID m) payload;
          packet = packet\<lparr>LocalSessionID := copy_slice (LocalSessionID packet) (localSessionID m)\<rparr>;
          (r, m') = (if isControl opcode then localControlPacketIDLocked m
                     else localDataPacketIDLocked m)
      in case r of
           Inl err \<Rightarrow> (Inl err, m')
         | Inr pid \<Rightarrow>
             (let packet = packet\<lparr>ID := pid\<rparr>;
                  packet = (case remoteSessionID m' of
                              None \<Rightarrow> packet
                            | Some rs \<Rightarrow> packet\<lparr>RemoteSessionID := rs\<rparr>)
              in (Inr packet, m')))"

text \<open>
  \<open>Manager.NewHardResetPacket\<close>: "a hard reset will always have packet ID zero". The
  manager is returned as the method leaves it.
\<close>

definition NewHardResetPacket :: "Manager \<Rightarrow> Packet \<times> Manager" where
  "NewHardResetPacket m =
     (let packet = model_NewPacket P_CONTROL_HARD_RESET_CLIENT_V2 (keyID m) [];
          packet = packet\<lparr>ID := 0\<rparr>;
          packet = packet\<lparr>LocalSessionID := copy_slice (LocalSessionID packet) (localSessionID m)\<rparr>
      in (packet, m))"

text \<open>\<open>Manager.NewACKForPacketIDs\<close>.\<close>

definition NewACKForPacketIDs :: "Manager \<Rightarrow> PacketID list \<Rightarrow> error + Packet" where
  "NewACKForPacketIDs m ids =
     (case remoteSessionID m of
        None \<Rightarrow> Inl ErrNoRemoteSessionID
      | Some rs \<Rightarrow>
          Inr \<lparr>Opcode = P_ACK_V1, KeyID = keyID m, PeerID3 = replicate 3 0,
               LocalSessionID = localSessionID m, ACKs = ids, RemoteSessionID = rs,
               ID = 0, Payload = []\<rparr>)"

text \<open>
  \<open>Manager.SetNegotiationState\<close>: the tracer is told, the state is stored, and for
  \<open>S_GENERATED_KEYS\<close> the value \<open>true\<close> is sent on \<open>Ready\<close>. There is no other statement
  in the method.
\<close>

definition SetNegotiationState :: "Manager \<Rightarrow> NegotiationState \<Rightarrow> Manager" where
  "SetNegotiationState m sns =
     (let m = m\<lparr>tracer := tracer m @ [sns]\<rparr>;
          m = m\<lparr>negState := sns\<rparr>
      in if sns = S_GENERATED_KEYS then m\<lparr>Ready := Ready m @ [True]\<rparr> else m)"

text \<open>\<open>runtimex.PanicIfFalse\<close>, which \<open>runtimex.Assert\<close> names.\<close>

definition PanicIfFalse :: "bool \<Rightarrow> string \<Rightarrow> panic + unit" where
  "PanicIfFalse stmt message = (if \<not> stmt then Inl (Panic message) else Inr ())"

definition Assert :: "bool \<Rightarrow> string \<Rightarrow> panic + unit" where
  "Assert = PanicIfFalse"

text \<open>\<open>Manager.SetRemoteSessionID\<close>.\<close>

definition SetRemoteSessionID :: "Manager \<Rightarrow> SessionID \<Rightarrow> panic + Manager" where
  "SetRemoteSessionID m rsid =
     (case Assert (remoteSessionID m = None) ''SetRemoteSessionID called more than once'' of
        Inl p \<Rightarrow> Inl p
      | Inr _ \<Rightarrow> Inr (m\<lparr>remoteSessionID := Some rsid\<rparr>))"

text \<open>
  \<open>Manager.InitTunnelInfo\<close> and \<open>Manager.UpdateTunnelInfo\<close>. The argument \<open>parsed\<close> is
  what \<open>newTunnelInfoFromRemoteOptionsString\<close> returns for the option string.
\<close>

definition InitTunnelInfo :: "Manager \<Rightarrow> (error + TunnelInfo) \<Rightarrow> error option \<times> Manager" where
  "InitTunnelInfo m parsed =
     (case parsed of
        Inl err \<Rightarrow> (Some err, m)
      | Inr ti \<Rightarrow> (None, m\<lparr>tunnelInfo := ti\<rparr>))"

definition UpdateTunnelInfo :: "Manager \<Rightarrow> TunnelInfo \<Rightarrow> Manager" where
  "UpdateTunnelInfo m ti =
     m\<lparr>tunnelInfo := (tunnelInfo m)\<lparr>IP := IP ti, GW := GW ti, PeerID := PeerID ti,
                                      NetMask := NetMask ti\<rparr>\<rparr>"

text \<open>
  The methods of the manager that write to it, as calls; \<open>call\<close> runs one and \<open>calls\<close> a
  sequence, which a panic ends.
\<close>

datatype manager_call =
    CallNewPacket Opcode bytes
  | CallNewHardResetPacket
  | CallLocalDataPacketID
  | CallSetNegotiationState NegotiationState
  | CallSetRemoteSessionID SessionID
  | CallInitTunnelInfo "error + TunnelInfo"
  | CallUpdateTunnelInfo TunnelInfo

fun call :: "(Opcode \<Rightarrow> bool) \<Rightarrow> Manager \<Rightarrow> manager_call \<Rightarrow> panic + Manager" where
  "call isControl m (CallNewPacket opcode payload) = Inr (snd (NewPacket isControl m opcode payload))"
| "call isControl m CallNewHardResetPacket = Inr (snd (NewHardResetPacket m))"
| "call isControl m CallLocalDataPacketID = Inr (snd (LocalDataPacketID m))"
| "call isControl m (CallSetNegotiationState sns) = Inr (SetNegotiationState m sns)"
| "call isControl m (CallSetRemoteSessionID rsid) = SetRemoteSessionID m rsid"
| "call isControl m (CallInitTunnelInfo parsed) = Inr (snd (InitTunnelInfo m parsed))"
| "call isControl m (CallUpdateTunnelInfo ti) = Inr (UpdateTunnelInfo m ti)"

fun calls :: "(Opcode \<Rightarrow> bool) \<Rightarrow> Manager \<Rightarrow> manager_call list \<Rightarrow> panic + Manager" where
  "calls isControl m [] = Inr m"
| "calls isControl m (c # cs) =
     (case call isControl m c of
        Inl p \<Rightarrow> Inl p
      | Inr m' \<Rightarrow> calls isControl m' cs)"

text \<open>
  A manager as \<open>NewManager\<close> returns it when the random bytes and the key source are all
  zero, and a predicate for \<open>IsControl\<close>, for the examples below.
\<close>

definition exampleKeySource :: KeySource where
  "exampleKeySource = \<lparr>R1 = replicate 32 0, R2 = replicate 32 0, PreMaster = replicate 48 0\<rparr>"

definition exampleManager :: Manager where
  "exampleManager =
     initialManager\<lparr>localSessionID := replicate 8 0,
                     keys := [\<lparr>local = Some exampleKeySource\<rparr>]\<rparr>"

definition exampleIsControl :: "Opcode \<Rightarrow> bool" where
  "exampleIsControl opcode =
     (opcode = P_CONTROL_HARD_RESET_CLIENT_V2 \<or> opcode = P_CONTROL_HARD_RESET_SERVER_V2 \<or>
      opcode = P_CONTROL_V1)"

section \<open>Data ciphers (vpn/crypto.go and vpn/ciphers.go)\<close>

text \<open>
  \<open>cipherMode\<close> and \<open>cipherName\<close> are Go string types. The errors of the package are the
  constructors of \<open>vpn_error\<close>; \<open>Wrapped e\<close> is \<open>fmt.Errorf("%w: ...", e, ...)\<close>, whose
  text is left out; \<open>UnpaddingError\<close> is \<open>errors.New("unpadding error")\<close>; \<open>LibError\<close>
  carries an error of the standard library (\<open>crypto/aes\<close>, \<open>crypto/cipher\<close>), and
  \<open>OtherError\<close> one from elsewhere (the connection, \<open>io.EOF\<close>).
\<close>

type_synonym cipherMode = string
type_synonym cipherName = string

definition cipherModeCBC :: cipherMode where "cipherModeCBC = ''cbc''"
definition cipherModeGCM :: cipherMode where "cipherModeGCM = ''gcm''"
definition cipherNameAES :: cipherName where "cipherNameAES = ''aes''"

datatype lib_error = AesKeySizeError nat | GcmError string

datatype vpn_error =
    errInvalidKeySize
  | errUnsupportedCipher
  | errUnsupportedMode
  | errBadInput
  | errPadding
  | errUnpaddingPKCS7
  | UnpaddingError
  | Wrapped vpn_error
  | LibError lib_error
  | OtherError string

text \<open>What a call does: it returns a value, returns an error, or panics.\<close>

datatype 'a outcome = Return 'a | Fail vpn_error | Panics string

record dataCipherAES =
  ksb :: int
  mode :: cipherMode

definition keySizeBytes :: "dataCipherAES \<Rightarrow> int" where
  "keySizeBytes a = ksb a"

definition isAEAD :: "dataCipherAES \<Rightarrow> bool" where
  "isAEAD a = (mode a \<noteq> cipherModeCBC)"

definition blockSize :: "dataCipherAES \<Rightarrow> int" where
  "blockSize a = (if mode a = cipherModeCBC \<or> mode a = cipherModeGCM then 16 else 0)"

text \<open>
  \<open>newDataCipher\<close> and \<open>newDataCipherFromCipherSuite\<close>; the two files have the same text
  for both. The bits are an \<open>int\<close>; where the check on them passes they are positive, so
  that \<open>bits / 8\<close> is \<open>div\<close>.
\<close>

definition newDataCipher :: "cipherName \<Rightarrow> int \<Rightarrow> cipherMode \<Rightarrow> vpn_error + dataCipherAES" where
  "newDataCipher name bits mode' =
     (if bits mod 8 \<noteq> 0 \<or> bits > 512 \<or> bits < 64 then Inl (Wrapped errInvalidKeySize)
      else if name \<noteq> cipherNameAES then Inl (Wrapped errUnsupportedCipher)
      else if \<not> (mode' = cipherModeCBC \<or> mode' = cipherModeGCM) then Inl (Wrapped errUnsupportedMode)
      else Inr \<lparr>ksb = bits div 8, mode = mode'\<rparr>)"

definition newDataCipherFromCipherSuite :: "string \<Rightarrow> vpn_error + dataCipherAES" where
  "newDataCipherFromCipherSuite c =
     (if c = ''AES-128-CBC'' then newDataCipher cipherNameAES 128 cipherModeCBC
      else if c = ''AES-192-CBC'' then newDataCipher cipherNameAES 192 cipherModeCBC
      else if c = ''AES-256-CBC'' then newDataCipher cipherNameAES 256 cipherModeCBC
      else if c = ''AES-128-GCM'' then newDataCipher cipherNameAES 128 cipherModeGCM
      else if c = ''AES-256-GCM'' then newDataCipher cipherNameAES 256 cipherModeGCM
      else Inl errUnsupportedCipher)"

subsection \<open>PKCS#7 padding (vpn/ciphers.go)\<close>

text \<open>
  \<open>cipherPadTextPKCS7\<close>: \<open>padding := bs - len(buf)%bs\<close>, then \<open>padding\<close> bytes of value
  \<open>byte(padding)\<close> are appended. The block size is an \<open>int\<close>: the remainder panics for 0,
  and for a negative block size it is taken by the absolute value and \<open>bytes.Repeat\<close>
  panics on the negative count.
\<close>

definition cipherPadTextPKCS7 :: "bytes \<Rightarrow> int \<Rightarrow> bytes outcome" where
  "cipherPadTextPKCS7 buf bs =
     (if bs = 0 then Panics ''integer divide by zero''
      else
        let padding = bs - int (length buf) mod \<bar>bs\<bar> in
        if padding < 0 then Panics ''bytes: negative Repeat count''
        else Return (buf @ replicate (nat padding) (word_of_int padding)))"

text \<open>
  \<open>cipherUnpadTextPKCS7\<close>: the last byte is the number of bytes to cut. Reading the last
  byte of an empty buffer panics, and so does the slice when there are fewer bytes than
  that number. The function returns no error.
\<close>

definition cipherUnpadTextPKCS7 :: "bytes \<Rightarrow> bytes outcome" where
  "cipherUnpadTextPKCS7 buf =
     (if buf = [] then Panics ''index out of range''
      else
        let padding = unat (last buf) in
        if padding > length buf then Panics ''slice bounds out of range''
        else Return (take (length buf - padding) buf))"

subsection \<open>Encryption and decryption (vpn/crypto.go)\<close>

text \<open>
  Modelled from the spec: \<open>bytesUnpadPKCS7\<close> is not among the sources; its tests are. It
  returns \<open>errUnpaddingPKCS7\<close> for a block size above 255, for an empty buffer, and for a
  last byte that is 0 or more than the block size or more than the length; otherwise it
  cuts as many bytes as the last byte says.
\<close>

definition bytesUnpadPKCS7 :: "bytes \<Rightarrow> int \<Rightarrow> vpn_error + bytes" where
  "bytesUnpadPKCS7 b blockSize' =
     (if blockSize' > 255 then Inl errUnpaddingPKCS7
      else if b = [] then Inl errUnpaddingPKCS7
      else
        let psiz = int (unat (last b)) in
        if psiz \<le> 0 \<or> psiz > blockSize' then Inl errUnpaddingPKCS7
        else if psiz > int (length b) then Inl errUnpaddingPKCS7
        else Inr (take (length b - nat psiz) b))"

text \<open>
  The standard library, as the functions of a record: \<open>aes.NewCipher\<close>, the block size of
  a block, \<open>cipher.NewCBCEncrypter\<close> and \<open>NewCBCDecrypter\<close> followed by \<open>CryptBlocks\<close>
  (which panic on an initialization vector or an input of the wrong length),
  \<open>cipher.NewGCM\<close>, \<open>Seal\<close> and \<open>Open\<close>.
\<close>

record ('blk, 'gcm) cryptolib =
  aesNewCipher :: "bytes \<Rightarrow> lib_error + 'blk"
  libBlockSize :: "'blk \<Rightarrow> int"
  cbcEncrypt :: "'blk \<Rightarrow> bytes \<Rightarrow> bytes \<Rightarrow> panic + bytes"
  cbcDecrypt :: "'blk \<Rightarrow> bytes \<Rightarrow> bytes \<Rightarrow> panic + bytes"
  newGCM :: "'blk \<Rightarrow> lib_error + 'gcm"
  gcmSeal :: "'gcm \<Rightarrow> bytes \<Rightarrow> bytes \<Rightarrow> bytes \<Rightarrow> panic + bytes"
  gcmOpen :: "'gcm \<Rightarrow> bytes \<Rightarrow> bytes \<Rightarrow> bytes \<Rightarrow> panic + (lib_error + bytes)"

text \<open>
  \<open>dataCipherAES.encrypt\<close> of crypto.go. The slice \<open>key[:a.keySizeBytes()]\<close> panics for a
  negative key size (a key size above the length has returned \<open>errInvalidKeySize\<close>).
\<close>

definition encrypt ::
  "('blk, 'gcm) cryptolib \<Rightarrow> dataCipherAES \<Rightarrow> bytes \<Rightarrow> bytes \<Rightarrow> bytes \<Rightarrow> bytes \<Rightarrow> bytes outcome" where
  "encrypt lib a key iv plaintext ad =
     (if int (length key) < keySizeBytes a then Fail errInvalidKeySize
      else if keySizeBytes a < 0 then Panics ''slice bounds out of range''
      else
        let k = take (nat (keySizeBytes a)) key in
        case aesNewCipher lib k of
          Inl err \<Rightarrow> Fail (LibError err)
        | Inr block \<Rightarrow>
            if mode a = cipherModeCBC then
              (case cbcEncrypt lib block iv plaintext of
                 Inl (Panic msg) \<Rightarrow> Panics msg
               | Inr ciphertext \<Rightarrow> Return ciphertext)
            else if mode a = cipherModeGCM then
              (case newGCM lib block of
                 Inl err \<Rightarrow> Fail (LibError err)
               | Inr aesGCM \<Rightarrow>
                   (case gcmSeal lib aesGCM iv plaintext ad of
                      Inl (Panic msg) \<Rightarrow> Panics msg
                    | Inr ciphertext \<Rightarrow> Return ciphertext))
            else Fail errUnsupportedMode)"

text \<open>\<open>dataCipherAES.decrypt\<close> of crypto.go.\<close>

definition decrypt ::
  "('blk, 'gcm) cryptolib \<Rightarrow> dataCipherAES \<Rightarrow> bytes \<Rightarrow> bytes \<Rightarrow> bytes \<Rightarrow> bytes \<Rightarrow> bytes outcome" where
  "decrypt lib a key iv ciphertext ad =
     (if int (length key) < keySizeBytes a then Fail errInvalidKeySize
      else if keySizeBytes a < 0 then Panics ''slice bounds out of range''
      else
        let k = take (nat (keySizeBytes a)) key in
        case aesNewCipher lib k of
          Inl err \<Rightarrow> Fail (LibError err)
        | Inr block \<Rightarrow>
            if mode a = cipherModeCBC then
              (if int (length iv) \<noteq> libBlockSize lib block then Fail (Wrapped errBadInput)
               else
                 case cbcDecrypt lib block iv ciphertext of
                   Inl (Panic msg) \<Rightarrow> Panics msg
                 | Inr padded \<Rightarrow>
                     (case bytesUnpadPKCS7 padded (libBlockSize lib block) of
                        Inl err \<Rightarrow> Fail err
                      | Inr plaintext \<Rightarrow>
                          let padLen = int (length ciphertext) - int (length plaintext) in
                          if padLen > libBlockSize lib block \<or> padLen > int (length plaintext)
                          then Fail UnpaddingError
                          else Return plaintext))
            else if mode a = cipherModeGCM then
              (if length iv \<noteq> 12 then Fail (Wrapped errBadInput)
               else
                 case newGCM lib block of
                   Inl err \<Rightarrow> Fail (LibError err)
                 | Inr aesGCM \<Rightarrow>
                     (case gcmOpen lib aesGCM iv ciphertext ad of
                        Inl (Panic msg) \<Rightarrow> Panics msg
                      | Inr (Inl err) \<Rightarrow> Fail (LibError err)
                      | Inr (Inr plaintext) \<Rightarrow> Return plaintext))
            else Fail errUnsupportedMode)"

text \<open>
  A stand-in for the library, for the examples below: a block is its key, which must have
  16, 24 or 32 bytes; every byte is combined by XOR with the first byte of the key; the
  lengths that make the library panic are checked as the library checks them.
\<close>

definition exampleLib :: "(bytes, bytes) cryptolib" where
  "exampleLib =
     \<lparr>aesNewCipher = (\<lambda>k. if length k \<in> {16, 24, 32} then Inr k
                          else Inl (AesKeySizeError (length k))),
      libBlockSize = (\<lambda>_. 16),
      cbcEncrypt = (\<lambda>k iv src.
         if length iv \<noteq> 16 then Inl (Panic ''cipher.NewCBCEncrypter: IV length must equal block size'')
         else if length src mod 16 \<noteq> 0 then Inl (Panic ''crypto/cipher: input not full blocks'')
         else Inr (map (\<lambda>b. b XOR hd k) src)),
      cbcDecrypt = (\<lambda>k iv src.
         if length iv \<noteq> 16 then Inl (Panic ''cipher.NewCBCDecrypter: IV length must equal block size'')
         else if length src mod 16 \<noteq> 0 then Inl (Panic ''crypto/cipher: input not full blocks'')
         else Inr (map (\<lambda>b. b XOR hd k) src)),
      newGCM = (\<lambda>k. Inr k),
      gcmSeal = (\<lambda>k iv src ad.
         if length iv \<noteq> 12 then Inl (Panic ''crypto/cipher: incorrect nonce length given to GCM'')
         else Inr (map (\<lambda>b. b XOR hd k) src)),
      gcmOpen = (\<lambda>k iv src ad.
         if length iv \<noteq> 12 then Inl (Panic ''crypto/cipher: incorrect nonce length given to GCM'')
         else Inr (Inr (map (\<lambda>b. b XOR hd k) src)))\<rparr>"

section \<open>Key derivation (vpn/crypto.go)\<close>

text \<open>
  \<open>hmac.New(hash, secret)\<close> followed by writes and \<open>Sum(nil)\<close> is a function of the key
  and of the bytes written; the two hash functions are arguments.
\<close>

type_synonym hmac = "bytes \<Rightarrow> bytes \<Rightarrow> bytes"

text \<open>\<open>splitPreMasterSecret\<close>: \<open>secret[0 : (len(secret)+1)/2]\<close> and \<open>secret[len(secret)/2:]\<close>.\<close>

definition splitPreMasterSecret :: "bytes \<Rightarrow> bytes \<times> bytes" where
  "splitPreMasterSecret secret =
     (take ((length secret + 1) div 2) secret, drop (length secret div 2) secret)"

text \<open>
  The loop of \<open>pHash\<close>: \<open>a\<close> is the value of the variable \<open>a\<close>, \<open>j\<close> the offset. The loop
  ends when the offset reaches the length of the result; a hash that returns no bytes
  would keep it running.
\<close>

partial_function (option) pHash_loop ::
  "hmac \<Rightarrow> bytes \<Rightarrow> bytes \<Rightarrow> bytes \<Rightarrow> nat \<Rightarrow> bytes \<Rightarrow> bytes option" where
  "pHash_loop hm secret seed a j result =
     (if j < length result then
        let b = hm secret (a @ seed);
            result = take j result @ copy_slice (drop j result) b
        in pHash_loop hm secret seed (hm secret a) (j + length b) result
      else Some result)"

definition pHash :: "hmac \<Rightarrow> bytes \<Rightarrow> bytes \<Rightarrow> bytes \<Rightarrow> bytes option" where
  "pHash hm result secret seed = pHash_loop hm secret seed (hm secret seed) 0 result"

text \<open>
  \<open>for i, b := range result2 { result[i] ^= b }\<close>; the two slices have the same length
  where \<open>prf10\<close> runs the loop.
\<close>

definition xor_into :: "bytes \<Rightarrow> bytes \<Rightarrow> bytes" where
  "xor_into result result2 =
     map (\<lambda>(x, y). x XOR y) (zip result result2) @ drop (length result2) result"

definition prf10 :: "hmac \<Rightarrow> hmac \<Rightarrow> bytes \<Rightarrow> bytes \<Rightarrow> bytes \<Rightarrow> bytes \<Rightarrow> bytes option" where
  "prf10 hmacMD5 hmacSHA1 result secret label seed =
     (let labelAndSeed = replicate (length label + length seed) 0;
          labelAndSeed = copy_slice labelAndSeed label;
          labelAndSeed = take (length label) labelAndSeed @
                         copy_slice (drop (length label) labelAndSeed) seed;
          (s1, s2) = splitPreMasterSecret secret
      in case pHash hmacMD5 result s1 labelAndSeed of
           None \<Rightarrow> None
         | Some result \<Rightarrow>
             (case pHash hmacSHA1 (replicate (length result) 0) s2 labelAndSeed of
                None \<Rightarrow> None
              | Some result2 \<Rightarrow> Some (xor_into result result2)))"

text \<open>
  The function \<open>prf\<close> (the name is a command of Isabelle's, hence the prime):
  \<open>make([]byte, olen)\<close> panics for a negative length.
\<close>

definition prf' ::
  "hmac \<Rightarrow> hmac \<Rightarrow> bytes \<Rightarrow> bytes \<Rightarrow> bytes \<Rightarrow> bytes \<Rightarrow> bytes \<Rightarrow> bytes \<Rightarrow> int \<Rightarrow>
   (panic + bytes) option" where
  "prf' hmacMD5 hmacSHA1 secret label clientSeed serverSeed clientSid serverSid olen =
     (let seed = clientSeed @ serverSeed;
          seed = (if length clientSid \<noteq> 0 then seed @ clientSid else seed);
          seed = (if length serverSid \<noteq> 0 then seed @ serverSid else seed)
      in if olen < 0 then Some (Inl (Panic ''makeslice: len out of range''))
         else map_option Inr (prf10 hmacMD5 hmacSHA1 (replicate (nat olen) 0) secret label seed))"

text \<open>
  The P_hash of TLS 1.0 (RFC 2246, section 5), as the specification has it:
  \<open>A(0) = seed\<close>, \<open>A(i) = HMAC(secret, A(i-1))\<close>, and P_hash is
  \<open>HMAC(secret, A(1) + seed) + HMAC(secret, A(2) + seed) + ...\<close>, cut to the length asked
  for. With a hash of at least one byte, \<open>n\<close> blocks give \<open>n\<close> bytes or more.
\<close>

fun P_A :: "hmac \<Rightarrow> bytes \<Rightarrow> bytes \<Rightarrow> nat \<Rightarrow> bytes" where
  "P_A hm secret seed 0 = seed"
| "P_A hm secret seed (Suc i) = hm secret (P_A hm secret seed i)"

definition P_block :: "hmac \<Rightarrow> bytes \<Rightarrow> bytes \<Rightarrow> nat \<Rightarrow> bytes" where
  "P_block hm secret seed i = hm secret (P_A hm secret seed (Suc i) @ seed)"

definition P_stream :: "hmac \<Rightarrow> bytes \<Rightarrow> bytes \<Rightarrow> nat \<Rightarrow> bytes" where
  "P_stream hm secret seed k = concat (map (P_block hm secret seed) [0..<k])"

definition P_hash :: "hmac \<Rightarrow> bytes \<Rightarrow> bytes \<Rightarrow> nat \<Rightarrow> bytes" where
  "P_hash hm secret seed n = take n (P_stream hm secret seed n)"

text \<open>Two stand-ins for the hash functions, with their output lengths, for the examples below.\<close>

definition exampleHmacMD5 :: hmac where
  "exampleHmacMD5 k m = replicate 16 (of_nat (length k + length m))"

definition exampleHmacSHA1 :: hmac where
  "exampleHmacSHA1 k m = replicate 20 (of_nat (length k + 2 * length m))"

section \<open>The TLS connection over control packets (vpn/transport.go)\<close>

text \<open>
  The struct \<open>packet\<close> of package \<open>vpn\<close> has the fields of \<open>Packet\<close>, in lower case. Of
  the session (its declaration is not among the sources) the queue \<open>ackQueue\<close> is kept,
  a buffered channel: \<open>None\<close> is the nil channel, the list holds the packets waiting in
  it, oldest first, and \<open>ackQueueCap\<close> is its capacity. What else the session holds is
  \<open>sessionState\<close>.
\<close>

record 's session =
  ackQueue :: "Packet list option"
  ackQueueCap :: nat
  sessionState :: 's

text \<open>
  The functions of the session that are not among the sources: \<open>isNextPacket\<close>, and
  \<open>sendACK\<close>, which \<open>sendACKFn\<close> names; the latter returns its error and the session as
  it leaves it.
\<close>

record 's session_fns =
  isNextPacket :: "'s \<Rightarrow> Packet \<Rightarrow> bool"
  sendACKFn :: "'s \<Rightarrow> PacketID \<Rightarrow> vpn_error option \<times> 's"

text \<open>
  What has happened on a connection: an ACK was sent for a packet id, the payload of a
  packet was written to the buffer that the TLS client reads, a packet was put on the ack
  queue for the first time.
\<close>

datatype event = SentACK PacketID | Delivered Packet | Queued Packet

text \<open>
  \<open>TLSConn\<close>. The transport is the list of what the next calls of \<open>ReadPacket\<close> return,
  each a packet (or nil) and an error (or nil); \<open>None\<close> is the nil transport. When the
  list is empty no packet arrives any more and \<open>ReadPacket\<close> does not return.
\<close>

record 's TLSConn =
  session :: "'s session option"
  transport :: "(Packet option \<times> vpn_error option) list option"
  bufReader :: bytes
  events :: "event list"

text \<open>
  What a call does: it returns (the flag, the count, the error and the bytes copied into
  the buffer of the caller), it blocks for ever, or it panics.
\<close>

datatype read_result =
    Returns bool nat "vpn_error option" bytes
  | Blocks
  | Panicked string

text \<open>A send on a buffered channel blocks when the channel is full.\<close>

definition chan_send :: "'a list \<Rightarrow> nat \<Rightarrow> 'a \<Rightarrow> 'a list option" where
  "chan_send q cap x = (if length q < cap then Some (q @ [x]) else None)"

text \<open>
  \<open>writeAndReadFromBuffer\<close>: the payload is written to the buffer, then the buffer is
  read into \<open>b\<close>, of length \<open>blen\<close>. \<open>bytes.Buffer.Read\<close> returns \<open>io.EOF\<close> when the buffer is
  empty and \<open>b\<close> is not. The result is the count, the error, the bytes copied and the
  buffer left.
\<close>

definition writeAndReadFromBuffer ::
  "bytes \<Rightarrow> nat \<Rightarrow> bytes \<Rightarrow> nat \<times> vpn_error option \<times> bytes \<times> bytes" where
  "writeAndReadFromBuffer bb blen payload =
     (let bb = bb @ payload in
      if bb = [] then (if blen = 0 then (0, None, [], bb) else (0, Some (OtherError ''EOF''), [], bb))
      else (min blen (length bb), None, take blen bb, drop blen bb))"

text \<open>
  \<open>TLSConn.canRead\<close>: the packet is not nil and it is the next one. Without a session
  the call of \<open>isNextPacket\<close> dereferences nil, which is \<open>None\<close> here.
\<close>

definition canRead :: "'s session_fns \<Rightarrow> 's TLSConn \<Rightarrow> Packet option \<Rightarrow> bool option" where
  "canRead fns t p =
     (case p of
        None \<Rightarrow> Some False
      | Some pk \<Rightarrow>
          (case session t of
             None \<Rightarrow> None
           | Some sess \<Rightarrow> Some (isNextPacket fns (sessionState sess) pk)))"

text \<open>
  The branch that \<open>doReadFromConn\<close> and \<open>doReadFromQueue\<close> share for a packet that can be
  read: the ACK is sent, then the payload goes through the buffer.
\<close>

definition sendACKAndDeliver ::
  "'s session_fns \<Rightarrow> 's TLSConn \<Rightarrow> nat \<Rightarrow> Packet \<Rightarrow> read_result \<times> 's TLSConn" where
  "sendACKAndDeliver fns t blen p =
     (case session t of
        None \<Rightarrow> (Panicked ''nil pointer dereference'', t)
      | Some sess \<Rightarrow>
          (let (err, s') = sendACKFn fns (sessionState sess) (ID p);
               t = t\<lparr>session := Some (sess\<lparr>sessionState := s'\<rparr>)\<rparr>
           in case err of
                Some e \<Rightarrow> (Returns True 0 (Some e) [], t)
              | None \<Rightarrow>
                  (let t = t\<lparr>events := events t @ [SentACK (ID p)]\<rparr>;
                       (n, err, out, bb) = writeAndReadFromBuffer (bufReader t) blen (Payload p)
                   in (Returns True n err out,
                       t\<lparr>bufReader := bb, events := events t @ [Delivered p]\<rparr>))))"

text \<open>\<open>doReadFromConn\<close>, with \<open>TLSConn.doRead\<close> in it.\<close>

definition doReadFromConn ::
  "'s session_fns \<Rightarrow> 's TLSConn \<Rightarrow> nat \<Rightarrow> read_result \<times> 's TLSConn" where
  "doReadFromConn fns t blen =
     (case transport t of
        None \<Rightarrow> (Returns True 0 (Some (Wrapped errBadInput)) [], t)
      | Some [] \<Rightarrow> (Blocks, t)
      | Some ((p, err) # rest) \<Rightarrow>
          (let t = t\<lparr>transport := Some rest\<rparr> in
           case err of
             Some e \<Rightarrow> (Returns True 0 (Some e) [], t)
           | None \<Rightarrow>
               (case canRead fns t p of
                  None \<Rightarrow> (Panicked ''nil pointer dereference'', t)
                | Some True \<Rightarrow>
                    (case p of
                       None \<Rightarrow> (Panicked ''nil pointer dereference'', t)
                     | Some pk \<Rightarrow> sendACKAndDeliver fns t blen pk)
                | Some False \<Rightarrow>
                    (case p of
                       None \<Rightarrow> (Returns False 0 None [], t)
                     | Some pk \<Rightarrow>
                         (case session t of
                            None \<Rightarrow> (Panicked ''nil pointer dereference'', t)
                          | Some sess \<Rightarrow>
                              (case ackQueue sess of
                                 None \<Rightarrow> (Blocks, t)
                               | Some q \<Rightarrow>
                                   (case chan_send q (ackQueueCap sess) pk of
                                      None \<Rightarrow> (Blocks, t)
                                    | Some q' \<Rightarrow>
                                        (Returns False 0 None [],
                                         t\<lparr>session := Some (sess\<lparr>ackQueue := Some q'\<rparr>),
                                           events := events t @ [Queued pk]\<rparr>))))))))"

text \<open>
  \<open>doReadFromQueue\<close>: the loop over the channel takes the oldest packet and returns in
  its first round, one way or the other; on an empty or nil channel it waits.
\<close>

definition doReadFromQueue ::
  "'s session_fns \<Rightarrow> 's TLSConn \<Rightarrow> nat \<Rightarrow> read_result \<times> 's TLSConn" where
  "doReadFromQueue fns t blen =
     (case session t of
        None \<Rightarrow> (Panicked ''nil pointer dereference'', t)
      | Some sess \<Rightarrow>
          (case ackQueue sess of
             None \<Rightarrow> (Blocks, t)
           | Some [] \<Rightarrow> (Blocks, t)
           | Some (p # q) \<Rightarrow>
               (let t = t\<lparr>session := Some (sess\<lparr>ackQueue := Some q\<rparr>)\<rparr> in
                case canRead fns t (Some p) of
                  None \<Rightarrow> (Panicked ''nil pointer dereference'', t)
                | Some True \<Rightarrow> sendACKAndDeliver fns t blen p
                | Some False \<Rightarrow>
                    (case chan_send q (ackQueueCap sess) p of
                       None \<Rightarrow> (Blocks, t)
                     | Some q' \<Rightarrow>
                         doReadFromConn fns
                           (t\<lparr>session := Some (sess\<lparr>ackQueue := Some q'\<rparr>)\<rparr>) blen))))"

text \<open>The number of packets that the transport still has.\<close>

definition pending :: "'s TLSConn \<Rightarrow> nat" where
  "pending t = (case transport t of None \<Rightarrow> 0 | Some rs \<Rightarrow> length rs)"

text \<open>
  One round of the loop of \<open>TLSConn.Read\<close>: the switch on the length of the queue (the
  length of a nil channel is 0).
\<close>

definition Read_round :: "'s session_fns \<Rightarrow> 's TLSConn \<Rightarrow> nat \<Rightarrow> read_result \<times> 's TLSConn" where
  "Read_round fns t blen =
     (case session t of
        None \<Rightarrow> (Panicked ''nil pointer dereference'', t)
      | Some sess \<Rightarrow>
          if (case ackQueue sess of None \<Rightarrow> 0 | Some q \<Rightarrow> length q) = 0
          then doReadFromConn fns t blen
          else doReadFromQueue fns t blen)"

lemma doReadFromConn_pending:
  "doReadFromConn fns t blen = (Returns False n err out, t') \<Longrightarrow> pending t' < pending t"
  by (auto simp: doReadFromConn_def sendACKAndDeliver_def pending_def Let_def
        split: option.splits list.splits bool.splits prod.splits if_splits)

lemma Read_round_pending:
  "Read_round fns t blen = (Returns False n err out, t') \<Longrightarrow> pending t' < pending t"
  by (auto simp: Read_round_def doReadFromQueue_def sendACKAndDeliver_def pending_def Let_def
        split: option.splits list.splits bool.splits prod.splits if_splits
        dest!: doReadFromConn_pending)

text \<open>
  The loop of \<open>TLSConn.Read\<close>: rounds are run until one returns with the flag set. Every
  round that returns without the flag has taken a packet from the transport.
\<close>

function Read_loop :: "'s session_fns \<Rightarrow> 's TLSConn \<Rightarrow> nat \<Rightarrow> read_result \<times> 's TLSConn" where
  "Read_loop fns t blen =
     (case Read_round fns t blen of
        (Returns ok n err out, t') \<Rightarrow>
          if ok then (Returns True n err out, t') else Read_loop fns t' blen
      | (Blocks, t') \<Rightarrow> (Blocks, t')
      | (Panicked msg, t') \<Rightarrow> (Panicked msg, t'))"
  by pat_completeness auto
termination
proof (relation "measure (\<lambda>(fns, t, blen). pending t)")
  show "wf (measure (\<lambda>(fns, t, blen). pending t))" by simp
next
  fix fns :: "'s session_fns" and t :: "'s TLSConn" and blen x y x1 x2 x3 x4
  assume "(x, y) = Read_round fns t blen" and "x = Returns x1 x2 x3 x4" and "\<not> x1"
  then have "Read_round fns t blen = (Returns False x2 x3 x4, y)" by simp
  from Read_round_pending [OF this]
  show "((fns, y, blen), (fns, t, blen)) \<in> measure (\<lambda>(fns, t, blen). pending t)" by simp
qed

text \<open>\<open>TLSConn.Read\<close>, for a buffer \<open>b\<close> of length \<open>blen\<close>.\<close>

definition Read :: "'s session_fns \<Rightarrow> 's TLSConn \<Rightarrow> nat \<Rightarrow> read_result \<times> 's TLSConn" where
  "Read fns t blen =
     (if session t = None \<or> (case session t of None \<Rightarrow> True | Some sess \<Rightarrow> ackQueue sess = None)
      then (Returns True 0 (Some (Wrapped errBadInput)) [], t)
      else Read_loop fns t blen)"

text \<open>
  What a call leaves behind, for the proofs below: \<open>s\<close> is the state of the session,
  \<open>c\<close> the capacity of the queue and \<open>q\<close> the queue before the call.
\<close>

definition Read_post ::
  "'s session_fns \<Rightarrow> 's \<Rightarrow> nat \<Rightarrow> Packet list \<Rightarrow> 's TLSConn \<Rightarrow> read_result \<Rightarrow> 's TLSConn \<Rightarrow> bool" where
  "Read_post fns s c q t r t' \<longleftrightarrow>
     (\<exists>sess' q' qs ds.
        session t' = Some sess' \<and> ackQueue sess' = Some q' \<and>
        ackQueueCap sess' = c \<and> length q' \<le> c \<and>
        events t' = events t @ map Queued qs @ ds \<and>
        (\<forall>p \<in> set qs. \<not> isNextPacket fns s p) \<and>
        (\<forall>p \<in> set q \<union> set qs. \<not> isNextPacket fns s p \<longrightarrow> p \<in> set q') \<and>
        (ds = [] \<and> bufReader t' = bufReader t \<and>
           (\<forall>n err out. r = Returns False n err out \<longrightarrow> sessionState sess' = s) \<or>
         (\<exists>p n err out.
            ds = [SentACK (ID p), Delivered p] \<and> isNextPacket fns s p \<and>
            r = Returns True n err out \<and>
            out @ bufReader t' = bufReader t @ Payload p \<and>
            sendACKFn fns s (ID p) = (None, sessionState sess'))))"

text \<open>
  A stand-in for the functions of the session, for the examples below: the state is the
  id of the last packet acknowledged, the next packet is the one with that id plus one,
  and sending an ACK records the id. With it, a connection on which packet 2 arrives
  before packet 1.
\<close>

definition exampleSessionFns :: "PacketID session_fns" where
  "exampleSessionFns =
     \<lparr>isNextPacket = (\<lambda>lastACK p. ID p - lastACK = 1),
      sendACKFn = (\<lambda>lastACK pid. (None, pid))\<rparr>"



section \<open>Keepalive packets\<close>

subsection \<open>The data channel workers (internal/datachannel)\<close>

text \<open>
  The state of the workers: the data channel, and the channels as the lists of what has
  been sent on them, oldest first. \<open>DataChannel.readPacket\<close> is not among the sources: it
  is the argument \<open>readPacket\<close>, which returns the plaintext or an error, and the data
  channel as it leaves it. The warnings of the logger and the payloads that the worker
  dumps on the standard output are kept as lists.
\<close>

record 'd workersState =
  dataChannel :: 'd
  dataToTUN :: "bytes list"
  dataOrControlToMuxer :: "Packet list"
  warnings :: "vpn_error list"
  dumped :: "bytes list"

text \<open>
  \<open>workersState.moveUpWorker\<close>, for the packets that arrive on \<open>muxerToData\<close> before the
  shutdown: a packet that does not decrypt is logged; a plaintext of 16 bytes is dumped
  ("HACK - figure out what this fixed packet is. keepalive?") and the loop continues;
  any other plaintext is sent on \<open>dataToTUN\<close>.
\<close>

fun moveUpWorker ::
  "('d \<Rightarrow> Packet \<Rightarrow> (vpn_error + bytes) \<times> 'd) \<Rightarrow> 'd workersState \<Rightarrow> Packet list \<Rightarrow> 'd workersState" where
  "moveUpWorker readPacket ws [] = ws"
| "moveUpWorker readPacket ws (pkt # pkts) =
     (let (res, dc) = readPacket (dataChannel ws) pkt;
          ws = ws\<lparr>dataChannel := dc\<rparr>
      in case res of
           Inl err \<Rightarrow> moveUpWorker readPacket (ws\<lparr>warnings := warnings ws @ [err]\<rparr>) pkts
         | Inr decrypted \<Rightarrow>
             if length decrypted = 16
             then moveUpWorker readPacket (ws\<lparr>dumped := dumped ws @ [decrypted]\<rparr>) pkts
             else moveUpWorker readPacket (ws\<lparr>dataToTUN := dataToTUN ws @ [decrypted]\<rparr>) pkts)"

text \<open>The keepalive payload, as the comment in \<open>moveUpWorker\<close> gives it.\<close>

definition keepalivePayload :: bytes where
  "keepalivePayload =
     [0x2a, 0x18, 0x7b, 0xf3, 0x64, 0x1e, 0xb4, 0xcb, 0x07, 0xed, 0x2d, 0x0a, 0x98, 0x1f, 0xc7, 0x48]"

text \<open>
  A stand-in for the data channel, for the examples below: the plaintext of a packet is
  its payload.
\<close>

definition exampleReadPacket :: "unit \<Rightarrow> Packet \<Rightarrow> (vpn_error + bytes) \<times> unit" where
  "exampleReadPacket dc pkt = (Inr (Payload pkt), dc)"

definition exampleWorkersState :: "unit workersState" where
  "exampleWorkersState =
     \<lparr>dataChannel = (), dataToTUN = [], dataOrControlToMuxer = [], warnings = [], dumped = []\<rparr>"

subsection \<open>The muxer (vpn/muxer.go)\<close>

text \<open>
  The muxer: the connection, the data handler (\<open>None\<close> is nil) and the buffer that \<open>Read\<close>
  reads. What is not among the sources is a record of functions: \<open>readPacket\<close> on the
  connection (\<open>connReadPacket\<close>), \<open>isPing\<close> and the value \<open>pingPayload\<close>, \<open>parsePacketFromBytes\<close>, the three
  tests on a packet, and the methods \<open>ReadPacket\<close> and \<open>WritePacket\<close> of the data handler.
\<close>

record ('d, 'c) muxer =
  conn :: 'c
  data :: "'d option"
  muxerBufReader :: bytes

record ('d, 'c) muxer_fns =
  connReadPacket :: "'c \<Rightarrow> (vpn_error + bytes) \<times> 'c"
  isPing :: "bytes \<Rightarrow> bool"
  pingPayload :: bytes
  parsePacketFromBytes :: "bytes \<Rightarrow> vpn_error + Packet"
  packetIsControl :: "Packet \<Rightarrow> bool"
  packetIsACK :: "Packet \<Rightarrow> bool"
  packetIsData :: "Packet \<Rightarrow> bool"
  dataReadPacket :: "'d \<Rightarrow> Packet \<Rightarrow> (vpn_error + bytes) \<times> 'd"
  dataWritePacket :: "'d \<Rightarrow> 'c \<Rightarrow> bytes \<Rightarrow> (nat \<times> vpn_error option) \<times> 'd \<times> 'c"

text \<open>\<open>handleDataPing\<close>: the reply to a ping is the ping payload, written as a data packet.\<close>

definition handleDataPing ::
  "('d, 'c) muxer_fns \<Rightarrow> 'c \<Rightarrow> 'd option \<Rightarrow> vpn_error option \<times> 'd option \<times> 'c" where
  "handleDataPing fns c d =
     (case d of
        None \<Rightarrow> (Some (Wrapped errBadInput), d, c)
      | Some dh \<Rightarrow>
          (let ((n, err), dh', c') = dataWritePacket fns dh c (pingPayload fns)
           in (err, Some dh', c')))"

text \<open>
  \<open>muxer.handleIncomingPacket\<close>. The test \<open>isPing\<close> is made on the bytes as they came from
  the connection, before they are parsed and decrypted; an error of \<open>handleDataPing\<close> is
  logged only.
\<close>

definition handleIncomingPacket ::
  "('d, 'c) muxer_fns \<Rightarrow> ('d, 'c) muxer \<Rightarrow> bytes option \<Rightarrow>
   (panic + bool \<times> vpn_error option) \<times> ('d, 'c) muxer" where
  "handleIncomingPacket fns m arg =
     (case data m of
        None \<Rightarrow> (Inl (Panic ''muxer not initialized''), m)
      | Some dh \<Rightarrow>
          (let (got, m) =
                 (case arg of
                    None \<Rightarrow>
                      (let (res, c) = connReadPacket fns (conn m) in (res, m\<lparr>conn := c\<rparr>))
                  | Some bs \<Rightarrow> (Inr bs, m))
           in case got of
                Inl err \<Rightarrow> (Inr (False, Some err), m)
              | Inr input \<Rightarrow>
                  if isPing fns input then
                    (let (err, d, c) = handleDataPing fns (conn m) (data m)
                     in (Inr (False, None), m\<lparr>conn := c, data := d\<rparr>))
                  else
                    (case parsePacketFromBytes fns input of
                       Inl err \<Rightarrow> (Inr (False, Some err), m)
                     | Inr p \<Rightarrow>
                         if packetIsControl fns p then (Inr (False, None), m)
                         else if packetIsACK fns p then (Inr (False, None), m)
                         else if \<not> packetIsData fns p then (Inr (False, None), m)
                         else
                           (let (res, dh') = dataReadPacket fns dh p;
                                m = m\<lparr>data := Some dh'\<rparr>
                            in case res of
                                 Inl err \<Rightarrow> (Inr (False, Some err), m)
                               | Inr plaintext \<Rightarrow>
                                   (Inr (True, None),
                                    m\<lparr>muxerBufReader := muxerBufReader m @ plaintext\<rparr>)))))"

section \<open>Properties of the session manager\<close>

lemma NewManager_fields:
  assumes "NewManager rnd ks = Inr (m, e)"
  shows "localDataPacketID m = 1" and "localControlPacketID m = 1"
    and "remoteSessionID m = None"
  using assms
  by (auto simp: NewManager_def initialManager_def Let_def
           split: sum.splits if_splits)

lemma MaxUint32_minus_one: "MaxUint32 = - 1"
  by (simp add: MaxUint32_def)

lemma PacketID_succ_nonzero: "x \<noteq> MaxUint32 \<Longrightarrow> x + 1 \<noteq> 0" for x :: PacketID
  by (metis MaxUint32_minus_one add.commute add_eq_0_iff)

lemma PacketID_succ_unat: "x \<noteq> MaxUint32 \<Longrightarrow> unat (x + 1) = unat x + 1" for x :: PacketID
  using unatSuc [of x] PacketID_succ_nonzero [of x] by (simp add: add.commute)

text \<open>
  Claim C2. On a manager that \<open>NewManager\<close> returns the data packet-id counter is 1.
  \<open>LocalDataPacketID\<close> returns the counter and adds one to it, without wrapping around;
  at \<open>UINT32_MAX\<close> it returns \<open>ErrExpiredKey\<close> and leaves the manager as it is.
\<close>

theorem LocalDataPacketID_counter:
  "(NewManager rnd ks = Inr (m0, e) \<longrightarrow> localDataPacketID m0 = 1) \<and>
   (localDataPacketID m \<noteq> MaxUint32 \<longrightarrow>
      LocalDataPacketID m =
        (Inr (localDataPacketID m), m\<lparr>localDataPacketID := localDataPacketID m + 1\<rparr>) \<and>
      unat (localDataPacketID (snd (LocalDataPacketID m))) = unat (localDataPacketID m) + 1) \<and>
   (localDataPacketID m = MaxUint32 \<longrightarrow> LocalDataPacketID m = (Inl ErrExpiredKey, m))"
  using NewManager_fields(1) [of rnd ks m0 e]
  by (auto simp: LocalDataPacketID_def localDataPacketIDLocked_def Let_def PacketID_succ_unat)

theorem LocalDataPacketID_counter_witness:
  "NewManager (Inr (replicate 8 0)) (Inr \<lparr>R1 = [], R2 = [], PreMaster = []\<rparr>) =
     Inr (initialManager
            \<lparr>localSessionID := replicate 8 0,
             keys := [\<lparr>local = Some \<lparr>R1 = [], R2 = [], PreMaster = []\<rparr>\<rparr>]\<rparr>, None) \<and>
   localDataPacketID initialManager \<noteq> MaxUint32 \<and>
   LocalDataPacketID initialManager = (Inr 1, initialManager\<lparr>localDataPacketID := 2\<rparr>) \<and>
   localDataPacketID (initialManager\<lparr>localDataPacketID := MaxUint32\<rparr>) = MaxUint32 \<and>
   LocalDataPacketID (initialManager\<lparr>localDataPacketID := MaxUint32\<rparr>) =
     (Inl ErrExpiredKey, initialManager\<lparr>localDataPacketID := MaxUint32\<rparr>)"
proof -
  have new: "NewManager (Inr (replicate 8 0)) (Inr \<lparr>R1 = [], R2 = [], PreMaster = []\<rparr>) =
     Inr (initialManager
            \<lparr>localSessionID := replicate 8 0,
             keys := [\<lparr>local = Some \<lparr>R1 = [], R2 = [], PreMaster = []\<rparr>\<rparr>]\<rparr>, None)"
    by (simp add: NewManager_def ActiveKey_def initialManager_def Let_def)
  have one: "localDataPacketID initialManager = 1"
    by (simp add: initialManager_def)
  have ne: "localDataPacketID initialManager \<noteq> MaxUint32"
    by (simp add: one MaxUint32_def)
  have mx: "localDataPacketID (initialManager\<lparr>localDataPacketID := MaxUint32\<rparr>) = MaxUint32"
    by simp
  from LocalDataPacketID_counter [of "Inr (replicate 8 0)" "Inr \<lparr>R1 = [], R2 = [], PreMaster = []\<rparr>"
      _ None initialManager] ne
  have a: "LocalDataPacketID initialManager = (Inr 1, initialManager\<lparr>localDataPacketID := 2\<rparr>)"
    by (simp add: one)
  from LocalDataPacketID_counter [of "Inr (replicate 8 0)" "Inr \<lparr>R1 = [], R2 = [], PreMaster = []\<rparr>"
      _ None "initialManager\<lparr>localDataPacketID := MaxUint32\<rparr>"] mx
  have b: "LocalDataPacketID (initialManager\<lparr>localDataPacketID := MaxUint32\<rparr>) =
     (Inl ErrExpiredKey, initialManager\<lparr>localDataPacketID := MaxUint32\<rparr>)"
    by simp
  show ?thesis using new ne mx a b by simp
qed

subsection \<open>The control packet-id counter\<close>

lemma call_control_counter:
  assumes "call isControl m c = Inr m'" and "localControlPacketID m \<noteq> 0"
  shows "localControlPacketID m' \<noteq> 0 \<and>
         unat (localControlPacketID m) \<le> unat (localControlPacketID m')"
proof (cases c)
  case (CallNewPacket opcode payload)
  show ?thesis
  proof (cases "isControl opcode \<and> localControlPacketID m \<noteq> MaxUint32")
    case True
    then have "m' = m\<lparr>localControlPacketID := localControlPacketID m + 1\<rparr>"
      using assms(1) CallNewPacket
      by (simp add: NewPacket_def localControlPacketIDLocked_def Let_def)
    then show ?thesis
      using True PacketID_succ_nonzero PacketID_succ_unat by simp
  next
    case False
    then have "localControlPacketID m' = localControlPacketID m"
      using assms(1) CallNewPacket
      by (auto simp: NewPacket_def localControlPacketIDLocked_def
            localDataPacketIDLocked_def Let_def)
    then show ?thesis using assms(2) by simp
  qed
next
  case CallNewHardResetPacket
  then show ?thesis using assms by (auto simp: NewHardResetPacket_def Let_def)
next
  case CallLocalDataPacketID
  then show ?thesis
    using assms
    by (auto simp: LocalDataPacketID_def localDataPacketIDLocked_def Let_def split: if_splits)
next
  case (CallSetNegotiationState sns)
  then show ?thesis using assms by (auto simp: SetNegotiationState_def Let_def split: if_splits)
next
  case (CallSetRemoteSessionID rsid)
  then show ?thesis
    using assms
    by (auto simp: SetRemoteSessionID_def Assert_def PanicIfFalse_def split: if_splits)
next
  case (CallInitTunnelInfo parsed)
  then show ?thesis using assms by (auto simp: InitTunnelInfo_def split: sum.splits)
next
  case (CallUpdateTunnelInfo ti)
  then show ?thesis using assms by (auto simp: UpdateTunnelInfo_def)
qed

lemma calls_control_counter:
  "calls isControl m cs = Inr m' \<Longrightarrow> localControlPacketID m \<noteq> 0 \<Longrightarrow>
   localControlPacketID m' \<noteq> 0 \<and>
   unat (localControlPacketID m) \<le> unat (localControlPacketID m')"
proof (induction cs arbitrary: m)
  case Nil
  then show ?case by simp
next
  case (Cons c cs)
  from Cons.prems(1) obtain m1 where
    c: "call isControl m c = Inr m1" and cs: "calls isControl m1 cs = Inr m'"
    by (auto split: sum.splits)
  from call_control_counter [OF c Cons.prems(2)]
  have 1: "localControlPacketID m1 \<noteq> 0"
    and 2: "unat (localControlPacketID m) \<le> unat (localControlPacketID m1)"
    by simp_all
  from Cons.IH [OF cs 1] 2 show ?case by simp
qed

lemma NewPacket_control_ID:
  assumes "isControl opcode" and "NewPacket isControl m opcode payload = (Inr p, m')"
  shows "ID p = localControlPacketID m \<and>
         m' = m\<lparr>localControlPacketID := localControlPacketID m + 1\<rparr> \<and>
         localControlPacketID m \<noteq> MaxUint32"
  using assms
  by (auto simp: NewPacket_def localControlPacketIDLocked_def Let_def
        split: if_splits option.splits)

lemma NewHardResetPacket_ID:
  "ID (fst (NewHardResetPacket m)) = 0 \<and> snd (NewHardResetPacket m) = m"
  by (simp add: NewHardResetPacket_def Let_def)

text \<open>
  Claim C5. After any sequence of calls on a manager that \<open>NewManager\<close> returned,
  \<open>NewHardResetPacket\<close> returns a packet with packet id 0 and leaves the manager, so also
  the control counter, as it was; the counter has started at 1 and has not decreased; and
  a packet that \<open>NewPacket\<close> returns for a control opcode carries the counter's value,
  which is not 0, and the counter is then one more.
\<close>

theorem control_packet_id_never_zero:
  assumes "NewManager rnd ks = Inr (m0, e)"
    and "calls isControl m0 cs = Inr m"
  shows "ID (fst (NewHardResetPacket m)) = 0 \<and>
         snd (NewHardResetPacket m) = m \<and>
         localControlPacketID m0 = 1 \<and>
         1 \<le> unat (localControlPacketID m) \<and>
         (isControl opcode \<longrightarrow> NewPacket isControl m opcode payload = (Inr p, m') \<longrightarrow>
            ID p \<noteq> 0 \<and> ID p = localControlPacketID m \<and>
            unat (localControlPacketID m') = unat (localControlPacketID m) + 1)"
proof -
  have start: "localControlPacketID m0 = 1"
    using NewManager_fields(2) [OF assms(1)] .
  then have "localControlPacketID m0 \<noteq> 0" by simp
  from calls_control_counter [OF assms(2) this] start
  have nz: "localControlPacketID m \<noteq> 0" and ge: "1 \<le> unat (localControlPacketID m)"
    by simp_all
  have "ID p \<noteq> 0 \<and> ID p = localControlPacketID m \<and>
        unat (localControlPacketID m') = unat (localControlPacketID m) + 1"
    if "isControl opcode" and "NewPacket isControl m opcode payload = (Inr p, m')"
    using NewPacket_control_ID [OF that] nz PacketID_succ_unat by simp
  then show ?thesis
    using NewHardResetPacket_ID start ge by blast
qed

lemma NewManager_example:
  "NewManager (Inr (replicate 8 0)) (Inr exampleKeySource) = Inr (exampleManager, None)"
  by (simp add: NewManager_def ActiveKey_def initialManager_def exampleManager_def Let_def)

theorem control_packet_id_never_zero_witness:
  "NewManager (Inr (replicate 8 0)) (Inr exampleKeySource) = Inr (exampleManager, None) \<and>
   calls exampleIsControl exampleManager [CallNewPacket P_CONTROL_V1 [], CallNewHardResetPacket] =
     Inr (exampleManager\<lparr>localControlPacketID := 2\<rparr>) \<and>
   exampleIsControl P_CONTROL_V1 \<and>
   (\<exists>p m'. NewPacket exampleIsControl (exampleManager\<lparr>localControlPacketID := 2\<rparr>)
              P_CONTROL_V1 [] = (Inr p, m') \<and>
           ID p = 2 \<and> ID p \<noteq> 0 \<and> unat (localControlPacketID m') = 3) \<and>
   ID (fst (NewHardResetPacket (exampleManager\<lparr>localControlPacketID := 2\<rparr>))) = 0 \<and>
   snd (NewHardResetPacket (exampleManager\<lparr>localControlPacketID := 2\<rparr>)) =
     exampleManager\<lparr>localControlPacketID := 2\<rparr>"
proof -
  let ?m = "exampleManager\<lparr>localControlPacketID := 2\<rparr>"
  have ctl: "exampleIsControl P_CONTROL_V1"
    by (simp add: exampleIsControl_def)
  have run: "calls exampleIsControl exampleManager
               [CallNewPacket P_CONTROL_V1 [], CallNewHardResetPacket] = Inr ?m"
    by (simp add: NewPacket_def NewHardResetPacket_def localControlPacketIDLocked_def
          exampleIsControl_def exampleManager_def initialManager_def MaxUint32_def Let_def)
  obtain p m' where np: "NewPacket exampleIsControl ?m P_CONTROL_V1 [] = (Inr p, m')"
    by (simp add: NewPacket_def localControlPacketIDLocked_def exampleIsControl_def
          exampleManager_def initialManager_def MaxUint32_def Let_def)
  have two: "localControlPacketID ?m = 2" by simp
  from control_packet_id_never_zero [OF NewManager_example run, of P_CONTROL_V1 "[]" p m'] ctl np
  have "ID (fst (NewHardResetPacket ?m)) = 0" and "snd (NewHardResetPacket ?m) = ?m"
    and "ID p \<noteq> 0" and "ID p = 2" and "unat (localControlPacketID m') = 3"
    by (simp_all add: two)
  with NewManager_example run ctl np show ?thesis by blast
qed

subsection \<open>The remote session id\<close>

lemma call_remoteSessionID:
  assumes "call isControl m c = Inr m'" and "remoteSessionID m = Some old"
  shows "remoteSessionID m' = Some old"
proof (cases c)
  case (CallNewPacket opcode payload)
  then show ?thesis
    using assms
    by (auto simp: NewPacket_def localControlPacketIDLocked_def localDataPacketIDLocked_def
          Let_def split: if_splits)
next
  case CallNewHardResetPacket
  then show ?thesis using assms by (auto simp: NewHardResetPacket_def Let_def)
next
  case CallLocalDataPacketID
  then show ?thesis
    using assms
    by (auto simp: LocalDataPacketID_def localDataPacketIDLocked_def Let_def split: if_splits)
next
  case (CallSetNegotiationState sns)
  then show ?thesis
    using assms by (auto simp: SetNegotiationState_def Let_def split: if_splits)
next
  case (CallSetRemoteSessionID rsid)
  then show ?thesis
    using assms
    by (auto simp: SetRemoteSessionID_def Assert_def PanicIfFalse_def split: if_splits)
next
  case (CallInitTunnelInfo parsed)
  then show ?thesis using assms by (auto simp: InitTunnelInfo_def split: sum.splits)
next
  case (CallUpdateTunnelInfo ti)
  then show ?thesis using assms by (auto simp: UpdateTunnelInfo_def)
qed

lemma calls_remoteSessionID:
  "calls isControl m cs = Inr m' \<Longrightarrow> remoteSessionID m = Some old \<Longrightarrow>
   remoteSessionID m' = Some old"
proof (induction cs arbitrary: m)
  case Nil
  then show ?case by simp
next
  case (Cons c cs)
  from Cons.prems(1) obtain m1 where
    c: "call isControl m c = Inr m1" and cs: "calls isControl m1 cs = Inr m'"
    by (auto split: sum.splits)
  from Cons.IH [OF cs call_remoteSessionID [OF c Cons.prems(2)]] show ?case .
qed

text \<open>
  Claim C6. A manager that \<open>NewManager\<close> returns has no remote session id. While there
  is none, \<open>SetRemoteSessionID\<close> stores the id it is given; once there is one, the call
  panics with the message of the assertion, and no sequence of calls on the manager
  changes the stored id.
\<close>

theorem remote_session_id_set_once:
  "(NewManager rnd ks = Inr (m0, e) \<longrightarrow> remoteSessionID m0 = None) \<and>
   (remoteSessionID m = None \<longrightarrow>
      SetRemoteSessionID m rsid = Inr (m\<lparr>remoteSessionID := Some rsid\<rparr>)) \<and>
   (remoteSessionID m = Some old \<longrightarrow>
      SetRemoteSessionID m rsid = Inl (Panic ''SetRemoteSessionID called more than once'')) \<and>
   (remoteSessionID m = Some old \<longrightarrow> calls isControl m cs = Inr m' \<longrightarrow>
      remoteSessionID m' = Some old)"
  using NewManager_fields(3) [of rnd ks m0 e] calls_remoteSessionID [of isControl m cs m' old]
  by (simp add: SetRemoteSessionID_def Assert_def PanicIfFalse_def)

theorem remote_session_id_set_once_witness:
  "NewManager (Inr (replicate 8 0)) (Inr exampleKeySource) = Inr (exampleManager, None) \<and>
   remoteSessionID exampleManager = None \<and>
   SetRemoteSessionID exampleManager (replicate 8 1) =
     Inr (exampleManager\<lparr>remoteSessionID := Some (replicate 8 1)\<rparr>) \<and>
   SetRemoteSessionID (exampleManager\<lparr>remoteSessionID := Some (replicate 8 1)\<rparr>) (replicate 8 2) =
     Inl (Panic ''SetRemoteSessionID called more than once'') \<and>
   calls exampleIsControl (exampleManager\<lparr>remoteSessionID := Some (replicate 8 1)\<rparr>)
     [CallNewPacket P_CONTROL_V1 [], CallSetNegotiationState S_START] =
     Inr (exampleManager\<lparr>remoteSessionID := Some (replicate 8 1), localControlPacketID := 2,
                          tracer := [S_START], negState := S_START\<rparr>) \<and>
   remoteSessionID (exampleManager\<lparr>remoteSessionID := Some (replicate 8 1), localControlPacketID := 2,
                          tracer := [S_START], negState := S_START\<rparr>) = Some (replicate 8 1)"
proof -
  let ?m = "exampleManager\<lparr>remoteSessionID := Some (replicate 8 1)\<rparr>"
  let ?m' = "exampleManager\<lparr>remoteSessionID := Some (replicate 8 1), localControlPacketID := 2,
                          tracer := [S_START], negState := S_START\<rparr>"
  have none: "remoteSessionID exampleManager = None"
    by (simp add: exampleManager_def initialManager_def)
  have some: "remoteSessionID ?m = Some (replicate 8 1)" by simp
  have run: "calls exampleIsControl ?m
               [CallNewPacket P_CONTROL_V1 [], CallSetNegotiationState S_START] = Inr ?m'"
    by (simp add: NewPacket_def SetNegotiationState_def localControlPacketIDLocked_def
          exampleIsControl_def exampleManager_def initialManager_def MaxUint32_def Let_def
          neg_state_defs)
  from remote_session_id_set_once
         [of "Inr (replicate 8 0)" "Inr exampleKeySource" exampleManager None
             exampleManager "replicate 8 1"]
       none
  have a: "SetRemoteSessionID exampleManager (replicate 8 1) = Inr ?m"
    by simp
  from remote_session_id_set_once
         [of "Inr (replicate 8 0)" "Inr exampleKeySource" exampleManager None
             ?m "replicate 8 2" "replicate 8 1" exampleIsControl
             "[CallNewPacket P_CONTROL_V1 [], CallSetNegotiationState S_START]" ?m']
       some run
  have b: "SetRemoteSessionID ?m (replicate 8 2) =
             Inl (Panic ''SetRemoteSessionID called more than once'')"
    and c: "remoteSessionID ?m' = Some (replicate 8 1)"
    by simp_all
  from NewManager_example none a b run c show ?thesis by simp
qed

subsection \<open>The negotiation state\<close>

text \<open>
  Claim C9 as it is written fails: \<open>SetNegotiationState\<close> has no assertion, and after
  \<open>S_ACTIVE\<close> it stores the earlier state \<open>S_PRE_START\<close>.
\<close>

theorem SetNegotiationState_not_monotone:
  "negState (SetNegotiationState initialManager S_ACTIVE) = S_ACTIVE \<and>
   negState (SetNegotiationState (SetNegotiationState initialManager S_ACTIVE) S_PRE_START) =
     S_PRE_START \<and>
   S_PRE_START < S_ACTIVE"
  by (simp add: SetNegotiationState_def Let_def neg_state_defs)

text \<open>
  Claim C9, amended. \<open>SetNegotiationState\<close> stores the state it is given, whatever the
  state before, after passing it to the tracer; it sends on \<open>Ready\<close> when the state given
  is \<open>S_GENERATED_KEYS\<close> and only then; the other fields of the manager stay.
\<close>

theorem SetNegotiationState_stores:
  "negState (SetNegotiationState m sns) = sns \<and>
   tracer (SetNegotiationState m sns) = tracer m @ [sns] \<and>
   (sns = S_GENERATED_KEYS \<longrightarrow> Ready (SetNegotiationState m sns) = Ready m @ [True]) \<and>
   (sns \<noteq> S_GENERATED_KEYS \<longrightarrow> Ready (SetNegotiationState m sns) = Ready m) \<and>
   SetNegotiationState m sns =
     m\<lparr>tracer := tracer (SetNegotiationState m sns), negState := sns,
       Ready := Ready (SetNegotiationState m sns)\<rparr>"
  by (simp add: SetNegotiationState_def Let_def)

theorem SetNegotiationState_stores_witness:
  "negState (SetNegotiationState exampleManager S_GENERATED_KEYS) = S_GENERATED_KEYS \<and>
   Ready (SetNegotiationState exampleManager S_GENERATED_KEYS) = [True] \<and>
   S_START \<noteq> S_GENERATED_KEYS \<and>
   Ready (SetNegotiationState exampleManager S_START) = []"
proof -
  have r: "Ready exampleManager = []"
    by (simp add: exampleManager_def initialManager_def)
  have ne: "S_START \<noteq> S_GENERATED_KEYS"
    by (simp add: neg_state_defs)
  from SetNegotiationState_stores [of exampleManager S_GENERATED_KEYS]
       SetNegotiationState_stores [of exampleManager S_START] r ne
  show ?thesis by simp
qed

section \<open>Properties of the data ciphers\<close>

subsection \<open>Cipher suites\<close>

text \<open>
  Claim C4. The five suites of the \<open>switch\<close> give a cipher of the matching key size and
  mode. The suite \<open>AES-192-GCM\<close> is not among the cases: for it the function returns
  \<open>errUnsupportedCipher\<close>, as for a name that is no suite at all.
\<close>

theorem newDataCipherFromCipherSuite_AES_192_GCM:
  "newDataCipherFromCipherSuite ''AES-192-GCM'' = Inl errUnsupportedCipher \<and>
   newDataCipherFromCipherSuite ''AES-128-CBC'' = Inr \<lparr>ksb = 16, mode = cipherModeCBC\<rparr> \<and>
   newDataCipherFromCipherSuite ''AES-192-CBC'' = Inr \<lparr>ksb = 24, mode = cipherModeCBC\<rparr> \<and>
   newDataCipherFromCipherSuite ''AES-256-CBC'' = Inr \<lparr>ksb = 32, mode = cipherModeCBC\<rparr> \<and>
   newDataCipherFromCipherSuite ''AES-128-GCM'' = Inr \<lparr>ksb = 16, mode = cipherModeGCM\<rparr> \<and>
   newDataCipherFromCipherSuite ''AES-256-GCM'' = Inr \<lparr>ksb = 32, mode = cipherModeGCM\<rparr> \<and>
   newDataCipherFromCipherSuite ''BF-CBC'' = Inl errUnsupportedCipher"
  by (simp add: newDataCipherFromCipherSuite_def newDataCipher_def cipherNameAES_def
        cipherModeCBC_def cipherModeGCM_def)

lemma newDataCipherFromCipherSuite_other:
  assumes "c \<notin> {''AES-128-CBC'', ''AES-192-CBC'', ''AES-256-CBC'', ''AES-128-GCM'', ''AES-256-GCM''}"
  shows "newDataCipherFromCipherSuite c = Inl errUnsupportedCipher"
  using assms by (simp add: newDataCipherFromCipherSuite_def)

subsection \<open>PKCS#7 padding\<close>

lemma cipherPadTextPKCS7_value:
  assumes "1 \<le> bs" "bs \<le> 255"
  shows "cipherPadTextPKCS7 b bs =
           Return (b @ replicate (nat (bs - int (length b) mod bs))
                     (word_of_int (bs - int (length b) mod bs)))"
    and "1 \<le> bs - int (length b) mod bs" and "bs - int (length b) mod bs \<le> bs"
proof -
  have m: "0 \<le> int (length b) mod bs" "int (length b) mod bs < bs"
    using assms by simp_all
  show "cipherPadTextPKCS7 b bs =
           Return (b @ replicate (nat (bs - int (length b) mod bs))
                     (word_of_int (bs - int (length b) mod bs)))"
    using assms m by (simp add: cipherPadTextPKCS7_def Let_def)
  show "1 \<le> bs - int (length b) mod bs" "bs - int (length b) mod bs \<le> bs"
    using m by simp_all
qed

lemma unat_byte_of_int: "0 \<le> k \<Longrightarrow> k \<le> 255 \<Longrightarrow> unat (word_of_int k :: byte) = nat k"
  by (simp add: unat_eq_nat_uint uint_word_of_int take_bit_eq_mod)

text \<open>The round trip of the two functions, for a block size from 1 to 255.\<close>

lemma cipherPadTextPKCS7_roundtrip:
  assumes "1 \<le> bs" "bs \<le> 255"
  shows "\<exists>p. cipherPadTextPKCS7 b bs = Return p \<and> cipherUnpadTextPKCS7 p = Return b"
proof -
  let ?k = "bs - int (length b) mod bs"
  let ?p = "b @ replicate (nat ?k) (word_of_int ?k :: byte)"
  from cipherPadTextPKCS7_value [OF assms, of b]
  have p: "cipherPadTextPKCS7 b bs = Return ?p" and k: "1 \<le> ?k" "?k \<le> bs"
    by simp_all
  have k255: "?k \<le> 255" using k(2) assms(2) by linarith
  have k0: "0 \<le> ?k" using k(1) by linarith
  have u: "unat (word_of_int ?k :: byte) = nat ?k"
    using unat_byte_of_int [OF k0 k255] .
  have nk: "0 < nat ?k" using k by simp
  have l: "last ?p = word_of_int ?k" using nk by simp
  have "cipherUnpadTextPKCS7 ?p = Return b"
    using nk unfolding cipherUnpadTextPKCS7_def Let_def l u by simp
  with p show ?thesis by blast
qed

text \<open>
  Claim C7. The round trip holds (the lemma above), but \<open>cipherUnpadTextPKCS7\<close> does not
  reject malformed padding: a buffer that ends in 0, which no padding does, is returned
  whole, and with a last byte of 3 three bytes are cut whatever the block size and the
  bytes before are. \<open>bytesUnpadPKCS7\<close>, which crypto.go calls, rejects both for a block
  size of 2, as its tests ask.
\<close>

theorem cipherUnpadTextPKCS7_accepts_malformed:
  "cipherUnpadTextPKCS7 [0x61, 0x61, 0x00, 0x00] = Return [0x61, 0x61, 0x00, 0x00] \<and>
   cipherUnpadTextPKCS7 [0x61, 0x61, 0x03, 0x03] = Return [0x61] \<and>
   bytesUnpadPKCS7 [0x61, 0x61, 0x00, 0x00] 2 = Inl errUnpaddingPKCS7 \<and>
   bytesUnpadPKCS7 [0x61, 0x61, 0x03, 0x03] 2 = Inl errUnpaddingPKCS7"
  by (simp add: cipherUnpadTextPKCS7_def bytesUnpadPKCS7_def Let_def)

subsection \<open>Keys longer than the key size\<close>

lemma bytesUnpadPKCS7_error: "bytesUnpadPKCS7 b n = Inl e \<Longrightarrow> e = errUnpaddingPKCS7"
  by (simp add: bytesUnpadPKCS7_def Let_def split: if_splits)

lemma encrypt_short:
  "int (length key) < keySizeBytes a \<Longrightarrow> encrypt lib a key iv pt ad = Fail errInvalidKeySize"
  by (simp add: encrypt_def)

lemma encrypt_not_short:
  assumes "\<not> int (length key) < keySizeBytes a"
  shows "encrypt lib a key iv pt ad \<noteq> Fail errInvalidKeySize"
  using assms by (simp add: encrypt_def Let_def split: sum.split panic.split)

lemma encrypt_prefix:
  "keySizeBytes a \<le> int (length key) \<Longrightarrow>
   encrypt lib a key iv pt ad = encrypt lib a (take (nat (keySizeBytes a)) key) iv pt ad"
  by (simp add: encrypt_def Let_def)

lemma decrypt_short:
  "int (length key) < keySizeBytes a \<Longrightarrow> decrypt lib a key iv ct ad = Fail errInvalidKeySize"
  by (simp add: decrypt_def)

lemma decrypt_negative:
  "\<not> int (length key) < keySizeBytes a \<Longrightarrow> keySizeBytes a < 0 \<Longrightarrow>
   decrypt lib a key iv ct ad = Panics ''slice bounds out of range''"
  by (simp add: decrypt_def)

lemma decrypt_NewCipher_error:
  "\<not> int (length key) < keySizeBytes a \<Longrightarrow> \<not> keySizeBytes a < 0 \<Longrightarrow>
   aesNewCipher lib (take (nat (keySizeBytes a)) key) = Inl err \<Longrightarrow>
   decrypt lib a key iv ct ad = Fail (LibError err)"
  by (simp add: decrypt_def)

lemma decrypt_CBC:
  "\<not> int (length key) < keySizeBytes a \<Longrightarrow> \<not> keySizeBytes a < 0 \<Longrightarrow>
   aesNewCipher lib (take (nat (keySizeBytes a)) key) = Inr block \<Longrightarrow>
   mode a = cipherModeCBC \<Longrightarrow>
   decrypt lib a key iv ciphertext ad =
     (if int (length iv) \<noteq> libBlockSize lib block then Fail (Wrapped errBadInput)
      else
        case cbcDecrypt lib block iv ciphertext of
          Inl (Panic msg) \<Rightarrow> Panics msg
        | Inr padded \<Rightarrow>
            (case bytesUnpadPKCS7 padded (libBlockSize lib block) of
               Inl err \<Rightarrow> Fail err
             | Inr plaintext \<Rightarrow>
                 let padLen = int (length ciphertext) - int (length plaintext) in
                 if padLen > libBlockSize lib block \<or> padLen > int (length plaintext)
                 then Fail UnpaddingError
                 else Return plaintext))"
  by (simp add: decrypt_def)

lemma decrypt_GCM:
  "\<not> int (length key) < keySizeBytes a \<Longrightarrow> \<not> keySizeBytes a < 0 \<Longrightarrow>
   aesNewCipher lib (take (nat (keySizeBytes a)) key) = Inr block \<Longrightarrow>
   mode a \<noteq> cipherModeCBC \<Longrightarrow> mode a = cipherModeGCM \<Longrightarrow>
   decrypt lib a key iv ciphertext ad =
     (if length iv \<noteq> 12 then Fail (Wrapped errBadInput)
      else
        case newGCM lib block of
          Inl err \<Rightarrow> Fail (LibError err)
        | Inr aesGCM \<Rightarrow>
            (case gcmOpen lib aesGCM iv ciphertext ad of
               Inl (Panic msg) \<Rightarrow> Panics msg
             | Inr (Inl err) \<Rightarrow> Fail (LibError err)
             | Inr (Inr plaintext) \<Rightarrow> Return plaintext))"
  by (simp add: decrypt_def Let_def)

lemma decrypt_other_mode:
  "\<not> int (length key) < keySizeBytes a \<Longrightarrow> \<not> keySizeBytes a < 0 \<Longrightarrow>
   aesNewCipher lib (take (nat (keySizeBytes a)) key) = Inr block \<Longrightarrow>
   mode a \<noteq> cipherModeCBC \<Longrightarrow> mode a \<noteq> cipherModeGCM \<Longrightarrow>
   decrypt lib a key iv ciphertext ad = Fail errUnsupportedMode"
  by (simp add: decrypt_def Let_def)

lemma decrypt_not_short:
  assumes ns: "\<not> int (length key) < keySizeBytes a"
  shows "decrypt lib a key iv ct ad \<noteq> Fail errInvalidKeySize"
proof (cases "keySizeBytes a < 0")
  case True
  then show ?thesis by (simp add: decrypt_negative [OF ns True])
next
  case nn: False
  show ?thesis
  proof (cases "aesNewCipher lib (take (nat (keySizeBytes a)) key)")
    case (Inl err)
    then show ?thesis by (simp add: decrypt_NewCipher_error [OF ns nn Inl])
  next
    case (Inr block)
    show ?thesis
    proof (cases "mode a = cipherModeCBC")
      case True
      show ?thesis
        unfolding decrypt_CBC [OF ns nn Inr True]
        by (auto simp: Let_def split: sum.split panic.split dest: bytesUnpadPKCS7_error)
    next
      case nc: False
      show ?thesis
      proof (cases "mode a = cipherModeGCM")
        case True
        show ?thesis
          unfolding decrypt_GCM [OF ns nn Inr nc True]
          by (simp split: sum.split panic.split)
      next
        case False
        then show ?thesis by (simp add: decrypt_other_mode [OF ns nn Inr nc False])
      qed
    qed
  qed
qed

lemma decrypt_prefix:
  "keySizeBytes a \<le> int (length key) \<Longrightarrow>
   decrypt lib a key iv ct ad = decrypt lib a (take (nat (keySizeBytes a)) key) iv ct ad"
  by (simp add: decrypt_def Let_def)

text \<open>
  Claim C10. In crypto.go, \<open>encrypt\<close> and \<open>decrypt\<close> return \<open>errInvalidKeySize\<close> exactly
  when the key is shorter than the key size of the cipher; a key that is at least as long
  is cut to its first \<open>keySizeBytes\<close> bytes, so that two such keys with the same first
  \<open>keySizeBytes\<close> bytes give the same result, whatever it is.
\<close>

theorem dataCipherAES_key_prefix:
  "(encrypt lib a key iv txt ad = Fail errInvalidKeySize \<longleftrightarrow> int (length key) < keySizeBytes a) \<and>
   (decrypt lib a key iv txt ad = Fail errInvalidKeySize \<longleftrightarrow> int (length key) < keySizeBytes a) \<and>
   (keySizeBytes a \<le> int (length key) \<longrightarrow> keySizeBytes a \<le> int (length key') \<longrightarrow>
      take (nat (keySizeBytes a)) key = take (nat (keySizeBytes a)) key' \<longrightarrow>
      encrypt lib a key iv txt ad = encrypt lib a key' iv txt ad \<and>
      decrypt lib a key iv txt ad = decrypt lib a key' iv txt ad)"
proof -
  have e: "encrypt lib a key iv txt ad = Fail errInvalidKeySize \<longleftrightarrow> int (length key) < keySizeBytes a"
    using encrypt_short encrypt_not_short by blast
  have d: "decrypt lib a key iv txt ad = Fail errInvalidKeySize \<longleftrightarrow> int (length key) < keySizeBytes a"
    using decrypt_short decrypt_not_short by blast
  have p: "encrypt lib a key iv txt ad = encrypt lib a key' iv txt ad \<and>
           decrypt lib a key iv txt ad = decrypt lib a key' iv txt ad"
    if k1: "keySizeBytes a \<le> int (length key)" and k2: "keySizeBytes a \<le> int (length key')"
      and eq: "take (nat (keySizeBytes a)) key = take (nat (keySizeBytes a)) key'"
  proof
    have "encrypt lib a key iv txt ad =
            encrypt lib a (take (nat (keySizeBytes a)) key) iv txt ad"
      by (rule encrypt_prefix [OF k1])
    also have "\<dots> = encrypt lib a (take (nat (keySizeBytes a)) key') iv txt ad"
      by (simp only: eq)
    also have "\<dots> = encrypt lib a key' iv txt ad"
      by (rule encrypt_prefix [OF k2, symmetric])
    finally show "encrypt lib a key iv txt ad = encrypt lib a key' iv txt ad" .
    have "decrypt lib a key iv txt ad =
            decrypt lib a (take (nat (keySizeBytes a)) key) iv txt ad"
      by (rule decrypt_prefix [OF k1])
    also have "\<dots> = decrypt lib a (take (nat (keySizeBytes a)) key') iv txt ad"
      by (simp only: eq)
    also have "\<dots> = decrypt lib a key' iv txt ad"
      by (rule decrypt_prefix [OF k2, symmetric])
    finally show "decrypt lib a key iv txt ad = decrypt lib a key' iv txt ad" .
  qed
  from e d p show ?thesis by blast
qed

theorem dataCipherAES_key_prefix_witness:
  "encrypt exampleLib \<lparr>ksb = 16, mode = cipherModeGCM\<rparr> (replicate 16 1 @ [2, 3])
     (replicate 12 0) [7, 8] [] =
   encrypt exampleLib \<lparr>ksb = 16, mode = cipherModeGCM\<rparr> (replicate 16 1)
     (replicate 12 0) [7, 8] [] \<and>
   decrypt exampleLib \<lparr>ksb = 16, mode = cipherModeGCM\<rparr> (replicate 16 1 @ [2, 3])
     (replicate 12 0) [7, 8] [] =
   decrypt exampleLib \<lparr>ksb = 16, mode = cipherModeGCM\<rparr> (replicate 16 1)
     (replicate 12 0) [7, 8] [] \<and>
   encrypt exampleLib \<lparr>ksb = 16, mode = cipherModeGCM\<rparr> (replicate 16 1 @ [2, 3])
     (replicate 12 0) [7, 8] [] \<noteq> Fail errInvalidKeySize \<and>
   encrypt exampleLib \<lparr>ksb = 16, mode = cipherModeGCM\<rparr> [1, 2, 3]
     (replicate 12 0) [7, 8] [] = Fail errInvalidKeySize \<and>
   decrypt exampleLib \<lparr>ksb = 16, mode = cipherModeGCM\<rparr> [1, 2, 3]
     (replicate 12 0) [7, 8] [] = Fail errInvalidKeySize"
proof -
  let ?a = "\<lparr>ksb = 16, mode = cipherModeGCM\<rparr>"
  have k: "keySizeBytes ?a = 16" by (simp add: keySizeBytes_def)
  have l1: "keySizeBytes ?a \<le> int (length (replicate 16 (1::byte) @ [2, 3]))"
    and l2: "keySizeBytes ?a \<le> int (length (replicate 16 (1::byte)))"
    and l3: "int (length [1, 2, 3 :: byte]) < keySizeBytes ?a"
    and pre: "take (nat (keySizeBytes ?a)) (replicate 16 (1::byte) @ [2, 3]) =
              take (nat (keySizeBytes ?a)) (replicate 16 (1::byte))"
    by (simp_all add: k)
  have nl: "\<not> int (length (replicate 16 (1::byte) @ [2, 3])) < keySizeBytes ?a"
    by (simp add: k)
  note long = dataCipherAES_key_prefix
         [of exampleLib ?a "replicate 16 1 @ [2, 3]" "replicate 12 0" "[7, 8]" "[]" "replicate 16 1"]
  note short = dataCipherAES_key_prefix
         [of exampleLib ?a "[1, 2, 3]" "replicate 12 0" "[7, 8]" "[]"]
  from long l1 l2 pre
  have a: "encrypt exampleLib ?a (replicate 16 1 @ [2, 3]) (replicate 12 0) [7, 8] [] =
           encrypt exampleLib ?a (replicate 16 1) (replicate 12 0) [7, 8] []"
    and b: "decrypt exampleLib ?a (replicate 16 1 @ [2, 3]) (replicate 12 0) [7, 8] [] =
           decrypt exampleLib ?a (replicate 16 1) (replicate 12 0) [7, 8] []"
    by blast+
  from long nl
  have c: "encrypt exampleLib ?a (replicate 16 1 @ [2, 3]) (replicate 12 0) [7, 8] [] \<noteq>
           Fail errInvalidKeySize"
    by blast
  from short l3
  have d: "encrypt exampleLib ?a [1, 2, 3] (replicate 12 0) [7, 8] [] = Fail errInvalidKeySize"
    and e: "decrypt exampleLib ?a [1, 2, 3] (replicate 12 0) [7, 8] [] = Fail errInvalidKeySize"
    by blast+
  from a b c d e show ?thesis by blast
qed

section \<open>Properties of the key derivation\<close>

lemma P_stream_Suc: "P_stream hm secret seed (Suc k) = P_stream hm secret seed k @ P_block hm secret seed k"
  by (simp add: P_stream_def)

lemma P_stream_add:
  "\<exists>more. P_stream hm secret seed (k + d) = P_stream hm secret seed k @ more"
proof (induction d)
  case 0
  show ?case by simp
next
  case (Suc d)
  then obtain more where m: "P_stream hm secret seed (k + d) = P_stream hm secret seed k @ more"
    by blast
  have "P_stream hm secret seed (k + Suc d) =
          P_stream hm secret seed k @ (more @ P_block hm secret seed (k + d))"
    by (simp add: P_stream_Suc m)
  then show ?case by blast
qed

lemma P_stream_length:
  assumes "\<And>k m. hm k m \<noteq> []"
  shows "k \<le> length (P_stream hm secret seed k)"
proof (induction k)
  case 0
  then show ?case by simp
next
  case (Suc k)
  have "Suc 0 \<le> length (P_block hm secret seed k)"
    using assms by (simp add: P_block_def Suc_le_eq)
  with Suc show ?case unfolding P_stream_Suc length_append by linarith
qed

lemma take_P_stream_le:
  assumes "n \<le> length (P_stream hm secret seed i)" and "i \<le> k"
  shows "take n (P_stream hm secret seed k) = take n (P_stream hm secret seed i)"
proof -
  have k: "i + (k - i) = k" using assms(2) by simp
  from P_stream_add [of hm secret seed i "k - i"]
  obtain more where "P_stream hm secret seed k = P_stream hm secret seed i @ more"
    unfolding k by blast
  with assms(1) show ?thesis by simp
qed

lemma take_P_stream:
  assumes "n \<le> length (P_stream hm secret seed i)" and "n \<le> length (P_stream hm secret seed k)"
  shows "take n (P_stream hm secret seed k) = take n (P_stream hm secret seed i)"
proof (cases "i \<le> k")
  case True
  show ?thesis by (rule take_P_stream_le [OF assms(1) True])
next
  case False
  then have "k \<le> i" by simp
  show ?thesis by (rule take_P_stream_le [OF assms(2) \<open>k \<le> i\<close>, symmetric])
qed

lemma pHash_loop_invariant:
  assumes ne: "\<And>k m. hm k m \<noteq> []"
  shows "a = P_A hm secret seed (Suc i) \<Longrightarrow> j = length (P_stream hm secret seed i) \<Longrightarrow>
         length result = n \<Longrightarrow>
         take (min j n) result = take n (P_stream hm secret seed i) \<Longrightarrow>
         pHash_loop hm secret seed a j result = Some (P_hash hm secret seed n)"
proof (induction "n - j" arbitrary: i a j result rule: less_induct)
  case less
  note a = less.prems(1) and j = less.prems(2) and len = less.prems(3) and pre = less.prems(4)
  show ?case
  proof (cases "j < n")
    case False
    then have "n \<le> length (P_stream hm secret seed i)" using j by simp
    moreover have "n \<le> length (P_stream hm secret seed n)" using P_stream_length [OF ne] .
    ultimately have "take n (P_stream hm secret seed n) = take n (P_stream hm secret seed i)"
      by (rule take_P_stream)
    moreover have "result = take n (P_stream hm secret seed i)"
      using pre False len by simp
    ultimately show ?thesis
      using False len by (subst pHash_loop.simps) (simp add: P_hash_def)
  next
    case True
    define b where "b = hm secret (a @ seed)"
    define result' where "result' = take j result @ copy_slice (drop j result) b"
    have b: "b = P_block hm secret seed i" by (simp add: b_def a P_block_def)
    have bl: "Suc 0 \<le> length b" using ne by (simp add: b_def Suc_le_eq)
    have mn: "min j n = j" using True by simp
    have tj: "take j result = P_stream hm secret seed i"
      using pre True j unfolding mn by simp
    have r': "result' = P_stream hm secret seed i @ take (n - j) b @ drop (j + length b) result"
      using len True by (simp add: result'_def copy_slice_def tj add.commute)
    have len': "length result' = n"
      using len True j by (simp add: r')
    have j': "j + length b = length (P_stream hm secret seed (Suc i))"
      by (simp add: P_stream_Suc j b)
    have pre': "take (min (j + length b) n) result' = take n (P_stream hm secret seed (Suc i))"
    proof (cases "j + length b \<le> n")
      case True
      then have "take (n - j) b = b" by simp
      then show ?thesis using True j by (simp add: r' P_stream_Suc b min_def)
    next
      case False
      then show ?thesis using j \<open>j < n\<close> by (simp add: r' P_stream_Suc b min_def)
    qed
    have a': "hm secret a = P_A hm secret seed (Suc (Suc i))" by (simp add: a)
    have "n - (j + length b) < n - j" using True bl by linarith
    from less.hyps [OF this a' j' len' pre']
    have "pHash_loop hm secret seed (hm secret a) (j + length b) result' = Some (P_hash hm secret seed n)" .
    then show ?thesis
      using True len by (subst pHash_loop.simps) (simp add: Let_def b_def result'_def)
  qed
qed

lemma pHash_P_hash:
  assumes "\<And>k m. hm k m \<noteq> []"
  shows "pHash hm result secret seed = Some (P_hash hm secret seed (length result))"
  unfolding pHash_def
  by (rule pHash_loop_invariant [OF assms, where i = 0]) (simp_all add: P_stream_def)

lemma labelAndSeed_copy:
  "(let labelAndSeed = replicate (length label + length seed) (0::byte);
        labelAndSeed = copy_slice labelAndSeed label;
        labelAndSeed = take (length label) labelAndSeed @
                       copy_slice (drop (length label) labelAndSeed) seed
    in labelAndSeed) = label @ seed"
  by (simp add: copy_slice_def Let_def)

lemma splitPreMasterSecret_lengths:
  "length (fst (splitPreMasterSecret secret)) = (length secret + 1) div 2 \<and>
   length (snd (splitPreMasterSecret secret)) = (length secret + 1) div 2"
  by (simp add: splitPreMasterSecret_def)

lemma length_P_hash:
  assumes "\<And>k m. hm k m \<noteq> []"
  shows "length (P_hash hm secret seed n) = n"
  using P_stream_length [OF assms, where k = n and secret = secret and seed = seed]
  by (simp add: P_hash_def)

lemma prf10_P_hash:
  assumes md5: "\<And>k m. hmacMD5 k m \<noteq> []" and sha1: "\<And>k m. hmacSHA1 k m \<noteq> []"
  shows "prf10 hmacMD5 hmacSHA1 result secret label seed =
           Some (map (\<lambda>(x, y). x XOR y)
                  (zip (P_hash hmacMD5 (take ((length secret + 1) div 2) secret)
                          (label @ seed) (length result))
                       (P_hash hmacSHA1 (drop (length secret div 2) secret)
                          (label @ seed) (length result))))"
proof -
  have las: "take (length label) (copy_slice (replicate (length label + length seed) (0::byte)) label) @
             copy_slice (drop (length label)
               (copy_slice (replicate (length label + length seed) 0) label)) seed = label @ seed"
    using labelAndSeed_copy [of label seed] by (simp add: Let_def)
  show ?thesis
    unfolding prf10_def Let_def las splitPreMasterSecret_def prod.case
      pHash_P_hash [OF md5] pHash_P_hash [OF sha1] option.case
    by (simp add: xor_into_def length_P_hash [OF md5] length_P_hash [OF sha1])
qed

text \<open>
  Claim C3 as it is written fails on the second half: for a secret of three bytes it has
  two bytes, the rounded-up half, not the rounded-down one.
\<close>

theorem splitPreMasterSecret_second_half_rounds_up:
  "splitPreMasterSecret [1, 2, 3] = ([1, 2], [2, 3]) \<and>
   length (snd (splitPreMasterSecret [1, 2, 3])) \<noteq> length [1, 2, 3 :: byte] div 2"
  by (simp add: splitPreMasterSecret_def)

text \<open>
  Claim C3, amended. With hash functions of 16 and 20 bytes, \<open>prf\<close> returns exactly
  \<open>olen\<close> bytes. The secret is split in two halves of the same length, the length of
  the secret divided by two and rounded up: the first half from the start, the second from
  the index of the length divided by two and rounded down, so that for an odd length
  the two share the middle byte. The result is, byte by byte, the XOR of P_MD5 of the
  first half and P_SHA1 of the second, both over the label followed by the seeds and the
  session ids.
\<close>

theorem prf_is_P_hash:
  assumes md5: "\<forall>k m. length (hmacMD5 k m) = 16"
    and sha1: "\<forall>k m. length (hmacSHA1 k m) = 20"
    and olen: "0 \<le> olen"
  shows "\<exists>out s1 s2.
           prf' hmacMD5 hmacSHA1 secret label clientSeed serverSeed clientSid serverSid olen =
             Some (Inr out) \<and>
           length out = nat olen \<and>
           splitPreMasterSecret secret = (s1, s2) \<and>
           s1 = take ((length secret + 1) div 2) secret \<and>
           s2 = drop (length secret div 2) secret \<and>
           length s1 = (length secret + 1) div 2 \<and>
           length s2 = (length secret + 1) div 2 \<and>
           out = map (\<lambda>(x, y). x XOR y)
                   (zip (P_hash hmacMD5 s1
                           (label @ clientSeed @ serverSeed @ clientSid @ serverSid) (nat olen))
                        (P_hash hmacSHA1 s2
                           (label @ clientSeed @ serverSeed @ clientSid @ serverSid) (nat olen)))"
proof -
  have m: "hmacMD5 k m \<noteq> []" for k m
    using md5 [rule_format, of k m] by auto
  have s: "hmacSHA1 k m \<noteq> []" for k m
    using sha1 [rule_format, of k m] by auto
  let ?seed = "clientSeed @ serverSeed @ clientSid @ serverSid"
  let ?s1 = "take ((length secret + 1) div 2) secret"
  let ?s2 = "drop (length secret div 2) secret"
  let ?out = "map (\<lambda>(x, y). x XOR y)
                (zip (P_hash hmacMD5 ?s1 (label @ ?seed) (nat olen))
                     (P_hash hmacSHA1 ?s2 (label @ ?seed) (nat olen)))"
  have seed: "(let seed = clientSeed @ serverSeed;
                   seed = (if length clientSid \<noteq> 0 then seed @ clientSid else seed);
                   seed = (if length serverSid \<noteq> 0 then seed @ serverSid else seed)
               in seed) = ?seed"
    by (simp add: Let_def)
  have run: "prf' hmacMD5 hmacSHA1 secret label clientSeed serverSeed clientSid serverSid olen =
               Some (Inr ?out)"
    using olen seed
    by (simp add: prf'_def Let_def prf10_P_hash [OF m s])
  have len: "length ?out = nat olen"
    by (simp add: length_P_hash [OF m] length_P_hash [OF s])
  have sp: "splitPreMasterSecret secret = (?s1, ?s2)"
    by (simp add: splitPreMasterSecret_def)
  have l1: "length ?s1 = (length secret + 1) div 2"
    and l2: "length ?s2 = (length secret + 1) div 2"
    using splitPreMasterSecret_lengths [of secret] by (simp_all add: sp)
  from run len sp l1 l2 show ?thesis by blast
qed

theorem prf_is_P_hash_witness:
  "(\<forall>k m. length (exampleHmacMD5 k m) = 16) \<and>
   (\<forall>k m. length (exampleHmacSHA1 k m) = 20) \<and>
   (\<exists>out. prf' exampleHmacMD5 exampleHmacSHA1 [1, 2, 3] [4] [5] [6] [] [7] 48 = Some (Inr out) \<and>
          length out = 48 \<and>
          out = map (\<lambda>(x, y). x XOR y)
                  (zip (P_hash exampleHmacMD5 [1, 2] [4, 5, 6, 7] 48)
                       (P_hash exampleHmacSHA1 [2, 3] [4, 5, 6, 7] 48)))"
proof -
  have a: "\<forall>k m. length (exampleHmacMD5 k m) = 16"
    by (simp add: exampleHmacMD5_def)
  have b: "\<forall>k m. length (exampleHmacSHA1 k m) = 20"
    by (simp add: exampleHmacSHA1_def)
  have c: "(0::int) \<le> 48" by simp
  from prf_is_P_hash [OF a b c, of "[1, 2, 3]" "[4]" "[5]" "[6]" "[]" "[7]"]
  obtain out where "prf' exampleHmacMD5 exampleHmacSHA1 [1, 2, 3] [4] [5] [6] [] [7] 48 = Some (Inr out)"
    and "length out = 48"
    and "out = map (\<lambda>(x, y). x XOR y)
                  (zip (P_hash exampleHmacMD5 [1, 2] [4, 5, 6, 7] 48)
                       (P_hash exampleHmacSHA1 [2, 3] [4, 5, 6, 7] 48))"
    by auto
  with a b show ?thesis by blast
qed

section \<open>Properties of the TLS connection\<close>

lemma Read_post_idle:
  assumes "session t' = Some sess'" "ackQueue sess' = Some q'" "ackQueueCap sess' = c"
    "length q' \<le> c" "events t' = events t"
    "bufReader t' = bufReader t" "\<forall>p \<in> set q. \<not> isNextPacket fns s p \<longrightarrow> p \<in> set q'"
    "\<forall>n err out. r = Returns False n err out \<longrightarrow> sessionState sess' = s"
  shows "Read_post fns s c q t r t'"
  unfolding Read_post_def
  apply (rule exI [of _ sess'], rule exI [of _ q'], rule exI [of _ "[]"], rule exI [of _ "[]"])
  using assms by simp

lemma Read_post_queued:
  assumes "session t' = Some sess'" "ackQueue sess' = Some q'" "ackQueueCap sess' = c"
    "length q' \<le> c" "events t' = events t @ [Queued pk]"
    "bufReader t' = bufReader t" "\<not> isNextPacket fns s pk" "pk \<in> set q'"
    "\<forall>p \<in> set q. \<not> isNextPacket fns s p \<longrightarrow> p \<in> set q'"
    "sessionState sess' = s"
  shows "Read_post fns s c q t r t'"
  unfolding Read_post_def
  apply (rule exI [of _ sess'], rule exI [of _ q'], rule exI [of _ "[pk]"], rule exI [of _ "[]"])
  using assms by simp

lemma Read_post_delivered:
  assumes "session t' = Some sess'" "ackQueue sess' = Some q'" "ackQueueCap sess' = c"
    "length q' \<le> c" "events t' = events t @ [SentACK (ID p), Delivered p]"
    "isNextPacket fns s p" "out @ bufReader t' = bufReader t @ Payload p"
    "sendACKFn fns s (ID p) = (None, sessionState sess')"
    "\<forall>p \<in> set q. \<not> isNextPacket fns s p \<longrightarrow> p \<in> set q'"
  shows "Read_post fns s c q t (Returns True n err out) t'"
  unfolding Read_post_def
  apply (rule exI [of _ sess'], rule exI [of _ q'], rule exI [of _ "[]"],
         rule exI [of _ "[SentACK (ID p), Delivered p]"])
  using assms by auto

lemma writeAndReadFromBuffer_out:
  "writeAndReadFromBuffer bb blen payload = (n, err, out, bb') \<Longrightarrow> out @ bb' = bb @ payload"
  by (auto simp: writeAndReadFromBuffer_def Let_def simp del: take_append drop_append
        split: if_splits)

lemma sendACKAndDeliver_post:
  assumes t: "session t = Some sess" "sessionState sess = s" "ackQueue sess = Some q1"
      "ackQueueCap sess = c" "length q1 \<le> c"
    and nx: "isNextPacket fns s p"
    and q: "\<forall>x \<in> set q. \<not> isNextPacket fns s x \<longrightarrow> x \<in> set q1"
    and run: "sendACKAndDeliver fns t blen p = (r, t')"
    and t0: "events t = events t0" "bufReader t = bufReader t0"
  shows "Read_post fns s c q t0 r t'"
proof (cases "sendACKFn fns s (ID p)")
  case (Pair err s')
  show ?thesis
  proof (cases err)
    case (Some e)
    with Pair run t have r: "r = Returns True 0 (Some e) []"
      and t': "t' = t\<lparr>session := Some (sess\<lparr>sessionState := s'\<rparr>)\<rparr>"
      by (simp_all add: sendACKAndDeliver_def)
    show ?thesis
      by (rule Read_post_idle [where sess' = "sess\<lparr>sessionState := s'\<rparr>" and q' = q1])
         (use t t0 q r t' in simp_all)
  next
    case None
    obtain n e out bb where w: "writeAndReadFromBuffer (bufReader t) blen (Payload p) = (n, e, out, bb)"
      by (cases "writeAndReadFromBuffer (bufReader t) blen (Payload p)") auto
    from None Pair run t w have r: "r = Returns True n e out"
      and t': "t' = t\<lparr>session := Some (sess\<lparr>sessionState := s'\<rparr>), bufReader := bb,
                     events := events t @ [SentACK (ID p), Delivered p]\<rparr>"
      by (simp_all add: sendACKAndDeliver_def Let_def)
    show ?thesis
      unfolding r
      by (rule Read_post_delivered [where sess' = "sess\<lparr>sessionState := s'\<rparr>" and q' = q1 and p = p])
         (use t t0 q t' nx None Pair writeAndReadFromBuffer_out [OF w] in simp_all)
  qed
qed

lemma doReadFromConn_post:
  assumes t: "session t = Some sess" "sessionState sess = s" "ackQueue sess = Some q1"
      "ackQueueCap sess = c" "length q1 \<le> c"
    and q: "\<forall>x \<in> set q. \<not> isNextPacket fns s x \<longrightarrow> x \<in> set q1"
    and run: "doReadFromConn fns t blen = (r, t')"
    and t0: "events t = events t0" "bufReader t = bufReader t0"
  shows "Read_post fns s c q t0 r t'"
proof (cases "transport t")
  case None
  with run have "r = Returns True 0 (Some (Wrapped errBadInput)) []" and "t' = t"
    by (simp_all add: doReadFromConn_def)
  then show ?thesis
    by (intro Read_post_idle [where sess' = sess and q' = q1]) (use t t0 q in simp_all)
next
  case (Some rs)
  show ?thesis
  proof (cases rs)
    case Nil
    with Some run have "r = Blocks" and "t' = t"
      by (simp_all add: doReadFromConn_def)
    then show ?thesis
      by (intro Read_post_idle [where sess' = sess and q' = q1]) (use t t0 q in simp_all)
  next
    case (Cons x rest)
    obtain p err where x: "x = (p, err)" by (cases x)
    let ?t = "t\<lparr>transport := Some rest\<rparr>"
    have ts: "session ?t = Some sess" "events ?t = events t0" "bufReader ?t = bufReader t0"
      using t t0 by simp_all
    show ?thesis
    proof (cases err)
      case (Some e)
      with \<open>transport t = Some rs\<close> Cons x run
      have "r = Returns True 0 (Some e) []" and "t' = ?t"
        by (simp_all add: doReadFromConn_def)
      then show ?thesis
        by (intro Read_post_idle [where sess' = sess and q' = q1]) (use t t0 q in simp_all)
    next
      case None
      note noerr = None
      show ?thesis
      proof (cases p)
        case None
        with noerr \<open>transport t = Some rs\<close> Cons x run
        have "r = Returns False 0 None []" and "t' = ?t"
          by (simp_all add: doReadFromConn_def canRead_def)
        then show ?thesis
          by (intro Read_post_idle [where sess' = sess and q' = q1]) (use t t0 q in simp_all)
      next
        case (Some pk)
        show ?thesis
        proof (cases "isNextPacket fns s pk")
          case True
          with Some noerr \<open>transport t = Some rs\<close> Cons x run t
          have "sendACKAndDeliver fns ?t blen pk = (r, t')"
            by (simp add: doReadFromConn_def canRead_def)
          from sendACKAndDeliver_post [OF ts(1) t(2-5) True q this ts(2,3)]
          show ?thesis .
        next
          case False
          show ?thesis
          proof (cases "length q1 < c")
            case True
            with False Some noerr \<open>transport t = Some rs\<close> Cons x run t
            have "r = Returns False 0 None []"
              and "t' = ?t\<lparr>session := Some (sess\<lparr>ackQueue := Some (q1 @ [pk])\<rparr>),
                           events := events ?t @ [Queued pk]\<rparr>"
              by (simp_all add: doReadFromConn_def canRead_def chan_send_def)
            then show ?thesis
              by (intro Read_post_queued [where sess' = "sess\<lparr>ackQueue := Some (q1 @ [pk])\<rparr>"
                    and q' = "q1 @ [pk]" and pk = pk])
                 (use t t0 q False True in auto)
          next
            case nofit: False
            with False Some noerr \<open>transport t = Some rs\<close> Cons x run t
            have "r = Blocks" and "t' = ?t"
              by (simp_all add: doReadFromConn_def canRead_def chan_send_def)
            then show ?thesis
              by (intro Read_post_idle [where sess' = sess and q' = q1]) (use t t0 q in simp_all)
          qed
        qed
      qed
    qed
  qed
qed

lemma doReadFromQueue_post:
  assumes t: "session t = Some sess" "sessionState sess = s" "ackQueue sess = Some q"
      "ackQueueCap sess = c" "length q \<le> c"
    and run: "doReadFromQueue fns t blen = (r, t')"
  shows "Read_post fns s c q t r t'"
proof (cases q)
  case Nil
  with run t have "r = Blocks" and "t' = t"
    by (simp_all add: doReadFromQueue_def)
  then show ?thesis
    by (intro Read_post_idle [where sess' = sess and q' = q]) (use t in simp_all)
next
  case (Cons p rest)
  let ?sa = "sess\<lparr>ackQueue := Some rest\<rparr>"
  let ?ta = "t\<lparr>session := Some ?sa\<rparr>"
  have ta: "session ?ta = Some ?sa" "sessionState ?sa = s" "ackQueue ?sa = Some rest"
    "ackQueueCap ?sa = c" "length rest \<le> c" "events ?ta = events t" "bufReader ?ta = bufReader t"
    using t Cons by simp_all
  show ?thesis
  proof (cases "isNextPacket fns s p")
    case True
    with run t Cons have "sendACKAndDeliver fns ?ta blen p = (r, t')"
      by (simp add: doReadFromQueue_def canRead_def)
    moreover have "\<forall>x \<in> set q. \<not> isNextPacket fns s x \<longrightarrow> x \<in> set rest"
      using Cons True by auto
    ultimately show ?thesis
      using sendACKAndDeliver_post [OF ta(1-5) True _ _ ta(6,7)] by blast
  next
    case False
    let ?sb = "sess\<lparr>ackQueue := Some (rest @ [p])\<rparr>"
    let ?tb = "t\<lparr>session := Some ?sb\<rparr>"
    have fit: "length rest < c" using t(5) Cons by simp
    have tb: "session ?tb = Some ?sb" "sessionState ?sb = s" "ackQueue ?sb = Some (rest @ [p])"
      "ackQueueCap ?sb = c" "length (rest @ [p]) \<le> c" "events ?tb = events t"
      "bufReader ?tb = bufReader t"
      using t Cons by simp_all
    from run t Cons False fit have "doReadFromConn fns ?tb blen = (r, t')"
      by (simp add: doReadFromQueue_def canRead_def chan_send_def)
    moreover have "\<forall>x \<in> set q. \<not> isNextPacket fns s x \<longrightarrow> x \<in> set (rest @ [p])"
      using Cons by auto
    ultimately show ?thesis
      using doReadFromConn_post [OF tb(1-5) _ _ tb(6,7)] by blast
  qed
qed

lemma Read_round_post:
  assumes t: "session t = Some sess" "sessionState sess = s" "ackQueue sess = Some q"
      "ackQueueCap sess = c" "length q \<le> c"
    and run: "Read_round fns t blen = (r, t')"
  shows "Read_post fns s c q t r t'"
proof (cases "length q = 0")
  case True
  with run t have "doReadFromConn fns t blen = (r, t')"
    by (simp add: Read_round_def)
  from doReadFromConn_post [OF t _ this, of q t] show ?thesis by simp
next
  case False
  with run t have "doReadFromQueue fns t blen = (r, t')"
    by (simp add: Read_round_def)
  from doReadFromQueue_post [OF t this] show ?thesis .
qed

lemma Read_post_trans:
  assumes 1: "Read_post fns s c q t (Returns False n err out) t1"
    and 2: "\<And>sess1 q1. session t1 = Some sess1 \<Longrightarrow> sessionState sess1 = s \<Longrightarrow>
               ackQueue sess1 = Some q1 \<Longrightarrow> ackQueueCap sess1 = c \<Longrightarrow> length q1 \<le> c \<Longrightarrow>
               Read_post fns s c q1 t1 r t'"
  shows "Read_post fns s c q t r t'"
proof -
  from 1 obtain sess1 q1 qs where
    a: "session t1 = Some sess1" "ackQueue sess1 = Some q1" "ackQueueCap sess1 = c" "length q1 \<le> c"
      "events t1 = events t @ map Queued qs" "\<forall>p \<in> set qs. \<not> isNextPacket fns s p"
      "\<forall>p \<in> set q \<union> set qs. \<not> isNextPacket fns s p \<longrightarrow> p \<in> set q1"
      "bufReader t1 = bufReader t" "sessionState sess1 = s"
    unfolding Read_post_def by auto
  from 2 [OF a(1) a(9) a(2) a(3) a(4)] obtain sess' q' qs2 ds where
    b: "session t' = Some sess'" "ackQueue sess' = Some q'" "ackQueueCap sess' = c" "length q' \<le> c"
      "events t' = events t1 @ map Queued qs2 @ ds" "\<forall>p \<in> set qs2. \<not> isNextPacket fns s p"
      "\<forall>p \<in> set q1 \<union> set qs2. \<not> isNextPacket fns s p \<longrightarrow> p \<in> set q'"
      "ds = [] \<and> bufReader t' = bufReader t1 \<and>
           (\<forall>n err out. r = Returns False n err out \<longrightarrow> sessionState sess' = s) \<or>
         (\<exists>p n err out.
            ds = [SentACK (ID p), Delivered p] \<and> isNextPacket fns s p \<and>
            r = Returns True n err out \<and>
            out @ bufReader t' = bufReader t1 @ Payload p \<and>
            sendACKFn fns s (ID p) = (None, sessionState sess'))"
    unfolding Read_post_def by blast
  have ev: "events t' = events t @ map Queued (qs @ qs2) @ ds"
    using a(5) b(5) by simp
  have nn: "\<forall>p \<in> set (qs @ qs2). \<not> isNextPacket fns s p"
    using a(6) b(6) by auto
  have qq: "\<forall>p \<in> set q \<union> set (qs @ qs2). \<not> isNextPacket fns s p \<longrightarrow> p \<in> set q'"
    using a(7) b(7) by auto
  show ?thesis
    unfolding Read_post_def
    apply (rule exI [of _ sess'], rule exI [of _ q'], rule exI [of _ "qs @ qs2"], rule exI [of _ ds])
    using b(1-4) ev nn qq b(8) a(8) by simp
qed

lemma Read_loop_post:
  "session t = Some sess \<Longrightarrow> sessionState sess = s \<Longrightarrow> ackQueue sess = Some q \<Longrightarrow>
   ackQueueCap sess = c \<Longrightarrow> length q \<le> c \<Longrightarrow> Read_loop fns t blen = (r, t') \<Longrightarrow>
   Read_post fns s c q t r t'"
proof (induction fns t blen arbitrary: sess q rule: Read_loop.induct)
  case (1 fns t blen)
  obtain r1 t1 where round: "Read_round fns t blen = (r1, t1)"
    by (cases "Read_round fns t blen")
  from Read_round_post [OF "1.prems"(1-5) round]
  have post1: "Read_post fns s c q t r1 t1" .
  show ?case
  proof (cases r1)
    case (Returns ok n err out)
    show ?thesis
    proof (cases ok)
      case True
      with Returns round "1.prems"(6) have "r = r1" and "t' = t1"
        by (simp_all add: Read_loop.simps [of fns t blen])
      with post1 show ?thesis by simp
    next
      case False
      with Returns round "1.prems"(6) have loop: "Read_loop fns t1 blen = (r, t')"
        by (simp add: Read_loop.simps [of fns t blen])
      have step: "Read_post fns s c q1 t1 r t'"
        if "session t1 = Some sess1" "sessionState sess1 = s" "ackQueue sess1 = Some q1"
          "ackQueueCap sess1 = c" "length q1 \<le> c" for sess1 q1
        using "1.IH" [OF round [symmetric] Returns False that loop] .
      have post1': "Read_post fns s c q t (Returns False n err out) t1"
        using post1 Returns False by simp
      show ?thesis
        by (rule Read_post_trans [OF post1' step])
    qed
  next
    case Blocks
    with round "1.prems"(6) have "r = r1" and "t' = t1"
      by (simp_all add: Read_loop.simps [of fns t blen])
    with post1 show ?thesis by simp
  next
    case (Panicked msg)
    with round "1.prems"(6) have "r = r1" and "t' = t1"
      by (simp_all add: Read_loop.simps [of fns t blen])
    with post1 show ?thesis by simp
  qed
qed

text \<open>
  With the stand-in session, whose next packet is the one after the last one
  acknowledged: a packet that a call delivers has the id after the last one, and is the
  last one acknowledged when the call returns. So the ids that a sequence of calls
  delivers go up by one.
\<close>

lemma Read_example_session_next_id:
  assumes "session t = Some sess" and "ackQueue sess = Some q"
    and "length q \<le> ackQueueCap sess" and "Read exampleSessionFns t blen = (r, t')"
    and "events t' = events t @ es" and "Delivered p \<in> set es"
  shows "ID p = sessionState sess + 1 \<and>
         (\<exists>sess'. session t' = Some sess' \<and> sessionState sess' = ID p)"
proof -
  from assms(1,2,4) have "Read_loop exampleSessionFns t blen = (r, t')"
    by (simp add: Read_def)
  from Read_loop_post [OF assms(1) refl assms(2) refl assms(3) this]
  obtain sess' qs ds where
    s': "session t' = Some sess'"
    and ev: "events t' = events t @ map Queued qs @ ds"
    and ds: "ds = [] \<or>
         (\<exists>p' n err out.
            ds = [SentACK (ID p'), Delivered p'] \<and>
            isNextPacket exampleSessionFns (sessionState sess) p' \<and>
            sendACKFn exampleSessionFns (sessionState sess) (ID p') = (None, sessionState sess'))"
    unfolding Read_post_def by blast
  from ev assms(5) have "es = map Queued qs @ ds" by simp
  with assms(6) have "Delivered p \<in> set ds" by auto
  with ds obtain p' where "ds = [SentACK (ID p'), Delivered p']"
    and nx: "isNextPacket exampleSessionFns (sessionState sess) p'"
    and ack: "sendACKFn exampleSessionFns (sessionState sess) (ID p') = (None, sessionState sess')"
    by auto
  with \<open>Delivered p \<in> set ds\<close> have "p' = p" by simp
  from nx have "ID p = sessionState sess + 1"
    unfolding \<open>p' = p\<close> by (simp add: exampleSessionFns_def algebra_simps)
  moreover from ack have "sessionState sess' = ID p"
    unfolding \<open>p' = p\<close> by (simp add: exampleSessionFns_def)
  ultimately show ?thesis using s' by simp
qed




section \<open>Properties of the keepalive handling\<close>

lemma moveUpWorker_dataOrControlToMuxer:
  "dataOrControlToMuxer (moveUpWorker readPacket ws pkts) = dataOrControlToMuxer ws"
  by (induction readPacket ws pkts rule: moveUpWorker.induct)
     (auto simp: Let_def split: prod.splits sum.splits)

text \<open>
  The other path, in the muxer: for bytes that \<open>isPing\<close> accepts, \<open>handleIncomingPacket\<close>
  writes the ping payload back through the data handler and puts nothing in the buffer
  that \<open>Read\<close> reads.
\<close>

lemma handleIncomingPacket_ping:
  assumes "data m = Some dh" and "isPing fns input"
    and "dataWritePacket fns dh (conn m) (pingPayload fns) = ((n, err), dh', c')"
  shows "handleIncomingPacket fns m (Some input) =
           (Inr (False, None), m\<lparr>conn := c', data := Some dh'\<rparr>)"
  using assms by (simp add: handleIncomingPacket_def handleDataPing_def)

text \<open>
  For bytes that \<open>isPing\<close> does not accept and that parse to a data packet, whatever
  plaintext the data handler returns is put in the buffer that \<open>Read\<close> reads, and nothing
  is written back.
\<close>

lemma handleIncomingPacket_data:
  assumes "data m = Some dh" and "\<not> isPing fns input"
    and "parsePacketFromBytes fns input = Inr p"
    and "\<not> packetIsControl fns p" and "\<not> packetIsACK fns p" and "packetIsData fns p"
    and "dataReadPacket fns dh p = (Inr plaintext, dh')"
  shows "handleIncomingPacket fns m (Some input) =
           (Inr (True, None),
            m\<lparr>data := Some dh', muxerBufReader := muxerBufReader m @ plaintext\<rparr>)"
  using assms by (simp add: handleIncomingPacket_def)

text \<open>
  Claim C8. The worker that moves packets up never sends on \<open>dataOrControlToMuxer\<close>, so it
  sends no reply. For a packet that decrypts to the keepalive payload it sends nothing to
  the tun either: the payload, like every plaintext of 16 bytes, is dumped and dropped.
\<close>

theorem moveUpWorker_keepalive_no_reply:
  "dataOrControlToMuxer (moveUpWorker readPacket ws pkts) = dataOrControlToMuxer ws \<and>
   length keepalivePayload = 16 \<and>
   moveUpWorker exampleReadPacket exampleWorkersState
     [(model_NewPacket P_DATA_V1 0 keepalivePayload)\<lparr>ID := 1\<rparr>] =
     exampleWorkersState\<lparr>dumped := [keepalivePayload]\<rparr> \<and>
   moveUpWorker exampleReadPacket exampleWorkersState
     [(model_NewPacket P_DATA_V1 0 (replicate 16 0))\<lparr>ID := 1\<rparr>] =
     exampleWorkersState\<lparr>dumped := [replicate 16 0]\<rparr>"
proof -
  have "moveUpWorker exampleReadPacket exampleWorkersState
          [(model_NewPacket P_DATA_V1 0 keepalivePayload)\<lparr>ID := 1\<rparr>] =
        exampleWorkersState\<lparr>dumped := [keepalivePayload]\<rparr>"
    by (simp add: exampleReadPacket_def exampleWorkersState_def model_NewPacket_def
          keepalivePayload_def)
  moreover have "moveUpWorker exampleReadPacket exampleWorkersState
          [(model_NewPacket P_DATA_V1 0 (replicate 16 0))\<lparr>ID := 1\<rparr>] =
        exampleWorkersState\<lparr>dumped := [replicate 16 0]\<rparr>"
    by (simp add: exampleReadPacket_def exampleWorkersState_def model_NewPacket_def)
  moreover have "length keepalivePayload = 16"
    by (simp add: keepalivePayload_def)
  ultimately show ?thesis
    using moveUpWorker_dataOrControlToMuxer by blast
qed

end
